theory Spec2Isabelle
  imports Complex_Main "HOL-Library.Word" "HOL-Library.Monad_Syntax"
begin

unbundle bit_operations_syntax

section \<open>rtl-sdr-audio: the sample callback and the exit path\<close>

text \<open>
  The program is one C file, \<^verbatim>\<open>rtl-sdr-audio.c\<close>. The functions embedded here are
  \<^verbatim>\<open>sdr_callback\<close> (lines 76 to 104), \<^verbatim>\<open>sighandler\<close> (lines 70 to 74) and the end
  of \<^verbatim>\<open>main\<close> (lines 197 to 207). Globals of the C file are fields of a state record,
  array accesses are checked (an access outside the array is undefined behaviour in C
  and \<open>None\<close> here), and the two \<^verbatim>\<open>for\<close> loops are recursive functions on their
  counters.
\<close>

subsection \<open>Constants of the source\<close>

definition AUDIO_CHANNELS :: nat where
  "AUDIO_CHANNELS = 2"

definition AUDIO_BUFFER_LENGTH :: nat where
  "AUDIO_BUFFER_LENGTH = 16384"

definition SDR_SAMPLE_RATIO :: nat where
  "SDR_SAMPLE_RATIO = 5"

definition SDR_BUFFER_LENGTH :: nat where
  "SDR_BUFFER_LENGTH = AUDIO_BUFFER_LENGTH * SDR_SAMPLE_RATIO * 2"

subsection \<open>Floating-point arithmetic\<close>

text \<open>
  The C code computes in \<^verbatim>\<open>double\<close> and stores \<^verbatim>\<open>float\<close>. A floating-point
  operation is the exact operation on real numbers followed by rounding to the format.
  The two rounding functions are not part of the program; they are the fields of
  \<open>fpenv\<close>, and every operation of the source is written with them. Two
  environments are defined. \<open>exact\<close> rounds nothing: it is arithmetic at infinite
  precision. \<open>ieee\<close> is the default rounding of IEEE 754, to the nearest number of
  the format with a tie going to the even one: 53 significant bits and a least exponent
  of \<open>-1074\<close> for double, 24 bits and \<open>-149\<close> for float, so that subnormal numbers
  are included. There is no greatest exponent: overflow to infinity is not modelled, nor
  is NaN (no value of this program comes near the range of a float).
\<close>

record fpenv =
  to_double :: "real \<Rightarrow> real"
  to_float :: "real \<Rightarrow> real"

definition exact :: fpenv where
  "exact = \<lparr>to_double = (\<lambda>x. x), to_float = (\<lambda>x. x)\<rparr>"

text \<open>The nearest integer, a tie going to the even one.\<close>

definition round_half_even :: "real \<Rightarrow> int" where
  "round_half_even m =
     (let f = \<lfloor>m\<rfloor> in
      if m - of_int f < 1 / 2 then f
      else if 1 / 2 < m - of_int f then f + 1
      else if even f then f else f + 1)"

text \<open>
  Rounding to \<open>p\<close> significant bits with the least exponent \<open>emin\<close>: \<open>x\<close> is
  divided by the power of two that brings it between \<open>2 ^ (p - 1)\<close> and \<open>2 ^ p\<close>, or
  by \<open>2\<close> to the \<open>emin\<close> when that is larger, rounded to an integer and multiplied
  back.
\<close>

definition round_to :: "nat \<Rightarrow> int \<Rightarrow> real \<Rightarrow> real" where
  "round_to p emin x =
     (if x = 0 then 0
      else let e = max (\<lfloor>log 2 \<bar>x\<bar>\<rfloor> - (int p - 1)) emin
           in of_int (round_half_even (x / 2 powr of_int e)) * 2 powr of_int e)"

definition ieee :: fpenv where
  "ieee = \<lparr>to_double = round_to 53 (- 1074), to_float = round_to 24 (- 149)\<rparr>"

definition dadd :: "fpenv \<Rightarrow> real \<Rightarrow> real \<Rightarrow> real" where
  "dadd E x y = to_double E (x + y)"

definition dsub :: "fpenv \<Rightarrow> real \<Rightarrow> real \<Rightarrow> real" where
  "dsub E x y = to_double E (x - y)"

definition dmul :: "fpenv \<Rightarrow> real \<Rightarrow> real \<Rightarrow> real" where
  "dmul E x y = to_double E (x * y)"

definition ddiv :: "fpenv \<Rightarrow> real \<Rightarrow> real \<Rightarrow> real" where
  "ddiv E x y = to_double E (x / y)"

definition dsqrt :: "fpenv \<Rightarrow> real \<Rightarrow> real" where
  "dsqrt E x = to_double E (sqrt x)"

text \<open>The cast \<^verbatim>\<open>(int)x\<close> of a double truncates towards zero.\<close>

definition c_trunc :: "real \<Rightarrow> int" where
  "c_trunc x = (if 0 \<le> x then \<lfloor>x\<rfloor> else \<lceil>x\<rceil>)"

subsection \<open>Program state\<close>

type_synonym u8 = "8 word"
type_synonym u32 = "32 word"

text \<open>
  \<open>g_audio_buffer\<close>, \<open>audio_channel\<close> and \<open>do_exit\<close> are the globals of that name.
  \<open>pcm_writes\<close> lists what was handed to \<^verbatim>\<open>snd_pcm_writei\<close> on \<^verbatim>\<open>g_audio_handle\<close>,
  one entry per call, oldest first; \<open>err_out\<close> is the text printed on \<^verbatim>\<open>stderr\<close>;
  \<open>cancel_async\<close> counts the calls of \<^verbatim>\<open>rtlsdr_cancel_async\<close> on \<^verbatim>\<open>sdr_dev\<close>.
\<close>

record state =
  g_audio_buffer :: "real list"
  audio_channel :: int
  do_exit :: int
  pcm_writes :: "real list list"
  err_out :: string
  cancel_async :: nat

text \<open>The state a C program starts in: globals are zero, nothing has been written.\<close>

definition initial_state :: state where
  "initial_state =
     \<lparr>g_audio_buffer = replicate (AUDIO_BUFFER_LENGTH * AUDIO_CHANNELS) 0,
      audio_channel = 0, do_exit = 0, pcm_writes = [], err_out = [], cancel_async = 0\<rparr>"

definition read_u8 :: "u8 list \<Rightarrow> nat \<Rightarrow> u8 option" where
  "read_u8 buf n = (if n < length buf then Some (buf ! n) else None)"

definition store_f32 :: "fpenv \<Rightarrow> real list \<Rightarrow> nat \<Rightarrow> real \<Rightarrow> real list option" where
  "store_f32 E out n x = (if n < length out then Some (out[n := to_float E x]) else None)"

subsection \<open>\<^verbatim>\<open>sighandler\<close>\<close>

definition sighandler :: "int \<Rightarrow> state \<Rightarrow> state" where
  "sighandler signum s =
     s\<lparr>err_out := err_out s @ ''Signal caught, exiting!'' @ [CHR 0x0A],
       do_exit := 1,
       cancel_async := Suc (cancel_async s)\<rparr>"

subsection \<open>\<^verbatim>\<open>sdr_callback\<close>\<close>

text \<open>Lines 89 and 90: one byte of the buffer as an amplitude.\<close>

definition amplitude :: "fpenv \<Rightarrow> u8 \<Rightarrow> real" where
  "amplitude E b = ddiv E (dsub E (real (unat (b AND 0xFF))) 127.5) 127.5"

text \<open>Lines 88 to 91: the loop on \<open>k\<close>, with \<open>sumI\<close> and \<open>sumQ\<close> as accumulators.\<close>

function inner_loop ::
  "fpenv \<Rightarrow> u8 list \<Rightarrow> nat \<Rightarrow> nat \<Rightarrow> real \<times> real \<Rightarrow> (real \<times> real) option" where
  "inner_loop E iqBuffer j k (sumI, sumQ) =
     (if k < SDR_SAMPLE_RATIO then do {
        bi \<leftarrow> read_u8 iqBuffer ((j * SDR_SAMPLE_RATIO * 2) + (k * 2));
        bq \<leftarrow> read_u8 iqBuffer ((j * SDR_SAMPLE_RATIO * 2) + (k * 2) + 1);
        inner_loop E iqBuffer j (k + 1)
          (dadd E sumI (amplitude E bi), dadd E sumQ (amplitude E bq))
      } else Some (sumI, sumQ))"
  by pat_completeness auto
termination
  by (relation "measure (\<lambda>(E, iqBuffer, j, k, acc). SDR_SAMPLE_RATIO - k)") auto

declare inner_loop.simps [simp del]

text \<open>Lines 87 to 94: the decimated pair \<open>(i, q)\<close> of output frame \<open>j\<close>.\<close>

definition decimate :: "fpenv \<Rightarrow> u8 list \<Rightarrow> nat \<Rightarrow> (real \<times> real) option" where
  "decimate E iqBuffer j = do {
     (sumI, sumQ) \<leftarrow> inner_loop E iqBuffer j 0 (0, 0);
     Some (ddiv E sumI (real SDR_SAMPLE_RATIO), ddiv E sumQ (real SDR_SAMPLE_RATIO))
   }"

text \<open>Line 95.\<close>

definition envelope :: "fpenv \<Rightarrow> real \<Rightarrow> real \<Rightarrow> real" where
  "envelope E i q = dsqrt E (dadd E (dmul E i i) (dmul E q q))"

text \<open>
  Lines 87 to 99: the body of the loop on \<open>j\<close>. It carries \<open>maxA\<close> and the audio
  buffer; \<open>ch\<close> is \<open>audio_channel\<close>.
\<close>

definition loop_body ::
  "fpenv \<Rightarrow> u8 list \<Rightarrow> int \<Rightarrow> nat \<Rightarrow> real \<times> real list \<Rightarrow> (real \<times> real list) option" where
  "loop_body E iqBuffer ch j st = (case st of (maxA, out) \<Rightarrow> do {
     (i, q) \<leftarrow> decimate E iqBuffer j;
     let a = envelope E i q;
     let maxA = (if a > maxA then a else maxA);
     out \<leftarrow> (if ch = 0 \<or> ch = 1 then store_f32 E out (j * 2) q else Some out);
     out \<leftarrow> (if ch = 0 \<or> ch = 2 then store_f32 E out ((j * 2) + 1) q else Some out);
     Some (maxA, out)
   })"

function outer_loop ::
  "fpenv \<Rightarrow> u8 list \<Rightarrow> int \<Rightarrow> nat \<Rightarrow> real \<times> real list \<Rightarrow> (real \<times> real list) option" where
  "outer_loop E iqBuffer ch j st =
     (if j < AUDIO_BUFFER_LENGTH then do {
        st' \<leftarrow> loop_body E iqBuffer ch j st;
        outer_loop E iqBuffer ch (j + 1) st'
      } else Some st)"
  by pat_completeness auto
termination
  by (relation "measure (\<lambda>(E, iqBuffer, ch, j, st). AUDIO_BUFFER_LENGTH - j)") auto

declare outer_loop.simps [simp del]

text \<open>
  Line 102 prints \<^verbatim>\<open>"\33[2K\r%0*d\r"\<close> with the width \<open>w\<close> and the number 0: the
  digit 0 padded with zeros to \<open>w\<close> characters. A negative width means left
  justification in C, where the padding is blanks on the right.
\<close>

definition meter :: "int \<Rightarrow> string" where
  "meter w =
     [CHR 0x1B] @ ''[2K'' @ [CHR 0x0D] @
     (if 0 \<le> w then replicate (nat w - 1) (CHR ''0'') @ ''0''
      else ''0'' @ replicate (nat (- w) - 1) (CHR '' '')) @
     [CHR 0x0D]"

text \<open>
  The callback. \<open>len\<close> is its second argument; the third one, \<^verbatim>\<open>ctx\<close>, is an
  untyped pointer that the function never uses, and is left out.
\<close>

definition sdr_callback :: "fpenv \<Rightarrow> u8 list \<Rightarrow> u32 \<Rightarrow> state \<Rightarrow> state option" where
  "sdr_callback E iqBuffer len s =
     (if do_exit s \<noteq> 0 then Some s
      else do {
        (maxA, out) \<leftarrow> outer_loop E iqBuffer (audio_channel s) 0 (0, g_audio_buffer s);
        let s = s\<lparr>g_audio_buffer := out\<rparr>;
        let s = s\<lparr>err_out := err_out s @ meter (c_trunc (dmul E maxA 30))\<rparr>;
        Some (s\<lparr>pcm_writes := pcm_writes s @
                  [take (AUDIO_BUFFER_LENGTH * AUDIO_CHANNELS) (g_audio_buffer s)]\<rparr>)
      })"

subsection \<open>The end of \<^verbatim>\<open>main\<close>\<close>

text \<open>\<^verbatim>\<open>%d\<close>: an int in decimal.\<close>

fun dec :: "nat \<Rightarrow> string" where
  "dec n = (if n < 10 then [''0123456789'' ! n] else dec (n div 10) @ [''0123456789'' ! (n mod 10)])"

declare dec.simps [simp del]

definition show_int :: "int \<Rightarrow> string" where
  "show_int r = (if r < 0 then CHR ''-'' # dec (nat (- r)) else dec (nat r))"

text \<open>
  Line 207, \<^verbatim>\<open>return r >= 0 ? r : -r\<close>, on a 32-bit \<^verbatim>\<open>int\<close>. Negating the least
  int overflows, which is undefined in C: \<open>None\<close>.
\<close>

definition exit_code :: "int \<Rightarrow> int option" where
  "exit_code r = (if r \<ge> 0 then Some r else if r = - (2 ^ 31) then None else Some (- r))"

text \<open>
  Lines 199 to 207. \<open>r\<close> is what \<^verbatim>\<open>rtlsdr_read_async\<close> returned and \<open>s\<close> the state
  at that moment. The result is the final state and the value \<^verbatim>\<open>main\<close> returns.
\<close>

definition main_finish :: "state \<Rightarrow> int \<Rightarrow> state \<times> int option" where
  "main_finish s r =
     (s\<lparr>err_out := err_out s @
          (if do_exit s \<noteq> 0 then [CHR 0x0A] @ ''User cancel, exiting...'' @ [CHR 0x0A]
           else [CHR 0x0A] @ ''Library error '' @ show_int r @ '', exiting...'' @ [CHR 0x0A])\<rparr>,
      exit_code r)"

subsection \<open>Observations\<close>

text \<open>What a call left in slot \<open>n\<close> of the audio buffer, and the envelope that line 95
  computes for frame \<open>j\<close>.\<close>

definition stored_sample :: "state option \<Rightarrow> nat \<Rightarrow> real option" where
  "stored_sample r n =
     (case r of None \<Rightarrow> None
      | Some s \<Rightarrow> if n < length (g_audio_buffer s) then Some (g_audio_buffer s ! n) else None)"

definition frame_Q :: "fpenv \<Rightarrow> u8 list \<Rightarrow> nat \<Rightarrow> real option" where
  "frame_Q E iqBuffer j = map_option snd (decimate E iqBuffer j)"

definition frame_envelope :: "fpenv \<Rightarrow> u8 list \<Rightarrow> nat \<Rightarrow> real option" where
  "frame_envelope E iqBuffer j =
     (case decimate E iqBuffer j of None \<Rightarrow> None | Some (i, q) \<Rightarrow> Some (envelope E i q))"

subsection \<open>The specification's formulas\<close>

text \<open>
  The specification's data model: a byte \<open>v\<close> stands for the amplitude
  \<open>(v - 127.5) / 127.5\<close>, and a decimated sample is the arithmetic mean of
  \<open>DecimationRatio\<close> amplitudes, those at the offsets \<open>j * ratio * 2 + k * 2\<close> for I and
  one further for Q.
\<close>

definition spec_amplitude :: "nat \<Rightarrow> real" where
  "spec_amplitude v = (real v - 127.5) / 127.5"

definition spec_decimated_I :: "u8 list \<Rightarrow> nat \<Rightarrow> real" where
  "spec_decimated_I raw j =
     (\<Sum>k<SDR_SAMPLE_RATIO. spec_amplitude (unat (raw ! (j * SDR_SAMPLE_RATIO * 2 + k * 2))))
       / real SDR_SAMPLE_RATIO"

definition spec_decimated_Q :: "u8 list \<Rightarrow> nat \<Rightarrow> real" where
  "spec_decimated_Q raw j =
     (\<Sum>k<SDR_SAMPLE_RATIO. spec_amplitude (unat (raw ! (j * SDR_SAMPLE_RATIO * 2 + k * 2 + 1))))
       / real SDR_SAMPLE_RATIO"

subsection \<open>Closed forms of the loops\<close>

text \<open>
  What the two loops compute when no access leaves its array, written without
  recursion: the accumulators of the loop on \<open>k\<close> as a left fold, the values of one
  frame, the audio buffer after the loop on \<open>j\<close> slot by slot, and the state after a
  whole call. The lemmas below show that the code computes exactly these.
\<close>

definition acc_sum :: "fpenv \<Rightarrow> u8 list \<Rightarrow> nat \<Rightarrow> nat \<Rightarrow> nat \<Rightarrow> real \<Rightarrow> real" where
  "acc_sum E buf j c k0 s =
     foldl (\<lambda>s k. dadd E s (amplitude E (buf ! (j * SDR_SAMPLE_RATIO * 2 + k * 2 + c)))) s
       [k0..<SDR_SAMPLE_RATIO]"

definition dec_I :: "fpenv \<Rightarrow> u8 list \<Rightarrow> nat \<Rightarrow> real" where
  "dec_I E buf j = ddiv E (acc_sum E buf j 0 0 0) (real SDR_SAMPLE_RATIO)"

definition dec_Q :: "fpenv \<Rightarrow> u8 list \<Rightarrow> nat \<Rightarrow> real" where
  "dec_Q E buf j = ddiv E (acc_sum E buf j 1 0 0) (real SDR_SAMPLE_RATIO)"

definition env_A :: "fpenv \<Rightarrow> u8 list \<Rightarrow> nat \<Rightarrow> real" where
  "env_A E buf j = envelope E (dec_I E buf j) (dec_Q E buf j)"

definition selected :: "int \<Rightarrow> nat \<Rightarrow> bool" where
  "selected ch n = (if even n then ch = 0 \<or> ch = 1 else ch = 0 \<or> ch = 2)"

definition routed :: "fpenv \<Rightarrow> u8 list \<Rightarrow> int \<Rightarrow> nat \<Rightarrow> real list \<Rightarrow> nat \<Rightarrow> real" where
  "routed E buf ch j0 out n =
     (if j0 * 2 \<le> n \<and> selected ch n then to_float E (dec_Q E buf (n div 2)) else out ! n)"

definition step_out :: "fpenv \<Rightarrow> u8 list \<Rightarrow> int \<Rightarrow> nat \<Rightarrow> real list \<Rightarrow> real list" where
  "step_out E buf ch j out =
     (let out1 = (if ch = 0 \<or> ch = 1 then out[j * 2 := to_float E (dec_Q E buf j)] else out)
      in if ch = 0 \<or> ch = 2 then out1[j * 2 + 1 := to_float E (dec_Q E buf j)] else out1)"

definition result_buffer :: "fpenv \<Rightarrow> u8 list \<Rightarrow> int \<Rightarrow> real list \<Rightarrow> real list" where
  "result_buffer E buf ch out = map (routed E buf ch 0 out) [0..<length out]"

definition peak :: "fpenv \<Rightarrow> u8 list \<Rightarrow> real" where
  "peak E buf = Max (insert 0 (env_A E buf ` {0..<AUDIO_BUFFER_LENGTH}))"

definition after_call :: "fpenv \<Rightarrow> u8 list \<Rightarrow> state \<Rightarrow> state" where
  "after_call E buf s =
     s\<lparr>g_audio_buffer := result_buffer E buf (audio_channel s) (g_audio_buffer s),
       pcm_writes := pcm_writes s @ [result_buffer E buf (audio_channel s) (g_audio_buffer s)],
       err_out := err_out s @ meter (c_trunc (dmul E (peak E buf) 30))\<rparr>"

subsection \<open>Inputs and properties used below\<close>

text \<open>
  Two raw buffers of the expected length, one whose bytes are all 0 and one whose bytes
  are all 2, and the start state with the routing mode set to left (\<^verbatim>\<open>-c 1\<close> on the
  command line).
\<close>

definition zeros :: "u8 list" where
  "zeros = replicate SDR_BUFFER_LENGTH 0"

definition twos :: "u8 list" where
  "twos = replicate SDR_BUFFER_LENGTH 2"

definition left_mode :: state where
  "left_mode = initial_state\<lparr>audio_channel := 1\<rparr>"

text \<open>The value of \<open>maxA\<close> when the loop on \<open>j\<close> has ended, in a call that passed
  line 83.\<close>

definition peak_level :: "fpenv \<Rightarrow> u8 list \<Rightarrow> state \<Rightarrow> real option" where
  "peak_level E iqBuffer s =
     map_option fst (outer_loop E iqBuffer (audio_channel s) 0 (0, g_audio_buffer s))"

text \<open>
  The error of rounding to double, for numbers of magnitude up to 128 (no value of the
  decimation is larger): at most \<open>u\<close> times the magnitude plus \<open>h\<close>. IEEE 754
  double has \<open>u = 1 / 2 ^ 53\<close>, half the spacing of doubles relative to their
  magnitude, and \<open>h = 1 / 2 ^ 1075\<close>, half the spacing of the subnormal numbers;
  \<open>exact\<close> has 0 for both.
\<close>

definition rounding_error :: "fpenv \<Rightarrow> real \<Rightarrow> real \<Rightarrow> bool" where
  "rounding_error E u h \<longleftrightarrow> (\<forall>x. \<bar>x\<bar> \<le> 128 \<longrightarrow> \<bar>to_double E x - x\<bar> \<le> u * \<bar>x\<bar> + h)"

text \<open>
  Two properties of rounding, both of which IEEE 754 rounding to nearest has:
  rounding to double keeps the sign of a non-negative number; and rounding is monotone,
  rounding to double changes no multiple of one half between \<open>-127.5\<close> and \<open>127.5\<close>,
  rounding to float changes neither \<open>-1\<close> nor \<open>1\<close>.
\<close>

definition keeps_sign :: "fpenv \<Rightarrow> bool" where
  "keeps_sign E \<longleftrightarrow> (\<forall>x. 0 \<le> x \<longrightarrow> 0 \<le> to_double E x)"

definition faithful :: "fpenv \<Rightarrow> bool" where
  "faithful E \<longleftrightarrow>
     mono (to_double E) \<and> mono (to_float E) \<and>
     (\<forall>z\<in>{- 255..255}. to_double E (real_of_int z / 2) = real_of_int z / 2) \<and>
     to_float E (- 1) = - 1 \<and> to_float E 1 = 1"

section \<open>The loops and their closed forms\<close>

lemma acc_sum_step:
  "k < SDR_SAMPLE_RATIO \<Longrightarrow>
   acc_sum E buf j c k s =
   acc_sum E buf j c (Suc k) (dadd E s (amplitude E (buf ! (j * SDR_SAMPLE_RATIO * 2 + k * 2 + c))))"
  by (simp add: acc_sum_def upt_conv_Cons)

lemma acc_sum_done: "\<not> k < SDR_SAMPLE_RATIO \<Longrightarrow> acc_sum E buf j c k s = s"
  by (simp add: acc_sum_def)

lemma inner_loop_closed:
  "j * SDR_SAMPLE_RATIO * 2 + SDR_SAMPLE_RATIO * 2 \<le> length buf \<Longrightarrow>
   inner_loop E buf j k (sI, sQ) = Some (acc_sum E buf j 0 k sI, acc_sum E buf j 1 k sQ)"
proof (induction E buf j k "(sI, sQ)" arbitrary: sI sQ rule: inner_loop.induct)
  case (1 E buf j k sumI sumQ)
  show ?case
  proof (cases "k < SDR_SAMPLE_RATIO")
    case True
    have r0: "j * SDR_SAMPLE_RATIO * 2 + k * 2 < length buf"
      and r1: "j * SDR_SAMPLE_RATIO * 2 + k * 2 + 1 < length buf"
      using True "1.prems" by auto
    have e0: "read_u8 buf (j * SDR_SAMPLE_RATIO * 2 + k * 2) =
                Some (buf ! (j * SDR_SAMPLE_RATIO * 2 + k * 2))"
      and e1: "read_u8 buf (j * SDR_SAMPLE_RATIO * 2 + k * 2 + 1) =
                Some (buf ! (j * SDR_SAMPLE_RATIO * 2 + k * 2 + 1))"
      using r0 r1 by (simp_all add: read_u8_def)
    show ?thesis
      using True r0 r1 "1.hyps" [OF True e0 e1 "1.prems"]
      by (subst inner_loop.simps) (simp add: read_u8_def acc_sum_step [of k])
  next
    case False
    then show ?thesis
      by (subst inner_loop.simps) (simp add: acc_sum_done)
  qed
qed

lemma frame_in_range:
  "j < AUDIO_BUFFER_LENGTH \<Longrightarrow> SDR_BUFFER_LENGTH \<le> length buf \<Longrightarrow>
   j * SDR_SAMPLE_RATIO * 2 + SDR_SAMPLE_RATIO * 2 \<le> length buf"
proof -
  assume a: "j < AUDIO_BUFFER_LENGTH" and b: "SDR_BUFFER_LENGTH \<le> length buf"
  have "Suc j \<le> AUDIO_BUFFER_LENGTH" using a by simp
  then have "Suc j * (SDR_SAMPLE_RATIO * 2) \<le> AUDIO_BUFFER_LENGTH * (SDR_SAMPLE_RATIO * 2)"
    by (rule mult_le_mono1)
  then show ?thesis using b by (simp add: SDR_BUFFER_LENGTH_def algebra_simps)
qed

lemma decimate_closed:
  "j < AUDIO_BUFFER_LENGTH \<Longrightarrow> SDR_BUFFER_LENGTH \<le> length buf \<Longrightarrow>
   decimate E buf j = Some (dec_I E buf j, dec_Q E buf j)"
  by (simp add: decimate_def inner_loop_closed frame_in_range dec_I_def dec_Q_def)

lemma length_step_out: "length (step_out E buf ch j out) = length out"
  by (simp add: step_out_def Let_def)

lemma loop_body_closed:
  assumes "j < AUDIO_BUFFER_LENGTH" "SDR_BUFFER_LENGTH \<le> length buf"
    and "length out = AUDIO_BUFFER_LENGTH * AUDIO_CHANNELS"
  shows "loop_body E buf ch j (m, out) =
         Some (if env_A E buf j > m then env_A E buf j else m, step_out E buf ch j out)"
proof -
  have "j * 2 + 1 < length out"
    using assms(1,3) by (simp add: AUDIO_CHANNELS_def)
  then show ?thesis
    using assms(1,2)
    by (simp add: loop_body_def decimate_closed store_f32_def step_out_def env_A_def Let_def)
qed

lemma routed_step:
  assumes "n < length out"
  shows "routed E buf ch (Suc j) (step_out E buf ch j out) n = routed E buf ch j out n"
proof -
  consider "n = j * 2" | "n = j * 2 + 1" | "n < j * 2" | "Suc j * 2 \<le> n"
    by (cases "n < j * 2"; cases "n = j * 2"; cases "n = j * 2 + 1") auto
  then show ?thesis
  proof cases
    case 1
    then show ?thesis using assms
      by (simp add: routed_def step_out_def selected_def Let_def)
  next
    case 2
    then show ?thesis using assms
      by (simp add: routed_def step_out_def selected_def Let_def)
  next
    case 3
    then show ?thesis using assms
      by (simp add: routed_def step_out_def Let_def)
  next
    case 4
    then show ?thesis using assms
      by (simp add: routed_def step_out_def Let_def)
  qed
qed

lemma Max_insert_step:
  assumes "finite A"
  shows "Max (insert (if e > m then e else m) A) = Max (insert m (insert e A))"
proof -
  have "Max (insert m (insert e A)) = max m (Max (insert e A))"
    using assms by simp
  also have "\<dots> = Max (insert (max m e) A)"
    using assms by (cases "A = {}") (simp_all add: max.assoc)
  finally show ?thesis by (simp add: max_def not_less)
qed

lemma outer_loop_closed:
  assumes "SDR_BUFFER_LENGTH \<le> length buf"
  shows "j0 \<le> AUDIO_BUFFER_LENGTH \<Longrightarrow> length out = AUDIO_BUFFER_LENGTH * AUDIO_CHANNELS \<Longrightarrow>
         outer_loop E buf ch j0 (m, out) =
         Some (Max (insert m (env_A E buf ` {j0..<AUDIO_BUFFER_LENGTH})),
               map (routed E buf ch j0 out) [0..<length out])"
proof (induction "AUDIO_BUFFER_LENGTH - j0" arbitrary: j0 m out)
  case 0
  then have j0: "j0 = AUDIO_BUFFER_LENGTH" by simp
  have "map (routed E buf ch j0 out) [0..<length out] = map ((!) out) [0..<length out]"
    using 0(3) by (intro map_cong refl) (simp add: routed_def j0 AUDIO_CHANNELS_def)
  then show ?case
    by (subst outer_loop.simps) (simp add: j0 map_nth)
next
  case (Suc d)
  then have lt: "j0 < AUDIO_BUFFER_LENGTH" by simp
  let ?m1 = "if env_A E buf j0 > m then env_A E buf j0 else m"
  let ?out1 = "step_out E buf ch j0 out"
  have body: "loop_body E buf ch j0 (m, out) = Some (?m1, ?out1)"
    using lt assms Suc.prems(2) by (rule loop_body_closed)
  have ih: "outer_loop E buf ch (Suc j0) (?m1, ?out1) =
            Some (Max (insert ?m1 (env_A E buf ` {Suc j0..<AUDIO_BUFFER_LENGTH})),
                  map (routed E buf ch (Suc j0) ?out1) [0..<length ?out1])"
    using Suc.hyps(2) lt Suc.prems(2)
    by (intro Suc.hyps(1)) (simp_all add: length_step_out)
  have set_eq: "{j0..<AUDIO_BUFFER_LENGTH} = insert j0 {Suc j0..<AUDIO_BUFFER_LENGTH}"
    using lt by auto
  have mx: "Max (insert ?m1 (env_A E buf ` {Suc j0..<AUDIO_BUFFER_LENGTH})) =
            Max (insert m (env_A E buf ` {j0..<AUDIO_BUFFER_LENGTH}))"
    by (subst set_eq) (simp only: image_insert Max_insert_step finite_imageI finite_atLeastLessThan)
  have mp: "map (routed E buf ch (Suc j0) ?out1) [0..<length ?out1] =
            map (routed E buf ch j0 out) [0..<length out]"
    by (simp only: length_step_out) (intro map_cong refl, simp add: routed_step)
  show ?case
    using lt by (subst outer_loop.simps) (simp add: body ih mx mp)
qed

lemma length_result_buffer: "length (result_buffer E buf ch out) = length out"
  by (simp add: result_buffer_def)

lemma nth_result_buffer:
  "n < length out \<Longrightarrow> result_buffer E buf ch out ! n = routed E buf ch 0 out n"
  by (simp add: result_buffer_def)

lemma sdr_callback_closed:
  assumes "SDR_BUFFER_LENGTH \<le> length buf"
    and "length (g_audio_buffer s) = AUDIO_BUFFER_LENGTH * AUDIO_CHANNELS"
    and "do_exit s = 0"
  shows "sdr_callback E buf len s = Some (after_call E buf s)"
  using assms(2,3)
  by (simp add: sdr_callback_def outer_loop_closed [OF assms(1)] after_call_def
      result_buffer_def peak_def)

lemma sdr_callback_total:
  assumes "SDR_BUFFER_LENGTH \<le> length buf"
    and "length (g_audio_buffer s) = AUDIO_BUFFER_LENGTH * AUDIO_CHANNELS"
  shows "sdr_callback E buf len s = Some (if do_exit s \<noteq> 0 then s else after_call E buf s)"
proof (cases "do_exit s = 0")
  case True
  then show ?thesis using sdr_callback_closed [OF assms True] by simp
next
  case False
  then show ?thesis by (simp add: sdr_callback_def)
qed

lemma result_buffer_idem:
  "result_buffer E buf ch (result_buffer E buf ch out) = result_buffer E buf ch out"
  by (rule nth_equalityI)
     (simp_all add: length_result_buffer nth_result_buffer routed_def)

lemma frame_Q_closed:
  "j < AUDIO_BUFFER_LENGTH \<Longrightarrow> SDR_BUFFER_LENGTH \<le> length buf \<Longrightarrow>
   frame_Q E buf j = Some (dec_Q E buf j)"
  by (simp add: frame_Q_def decimate_closed)

lemma frame_envelope_closed:
  "j < AUDIO_BUFFER_LENGTH \<Longrightarrow> SDR_BUFFER_LENGTH \<le> length buf \<Longrightarrow>
   frame_envelope E buf j = Some (env_A E buf j)"
  by (simp add: frame_envelope_def decimate_closed env_A_def)

lemma slots_in_range:
  "j < AUDIO_BUFFER_LENGTH \<Longrightarrow> j * 2 < AUDIO_BUFFER_LENGTH * AUDIO_CHANNELS \<and>
     j * 2 + 1 < AUDIO_BUFFER_LENGTH * AUDIO_CHANNELS"
  by (simp add: AUDIO_CHANNELS_def)

section \<open>Exact arithmetic computes the specification's mean\<close>

lemma and_FF: "(b::u8) AND 0xFF = b"
proof -
  have "(0xFF::u8) = - 1" by simp
  then show ?thesis by (simp only: and.right_neutral)
qed

lemma exact_sel: "to_double exact x = x" "to_float exact x = x"
  by (simp_all add: exact_def)

lemma amplitude_exact: "amplitude exact b = spec_amplitude (unat b)"
  by (simp only: amplitude_def and_FF) (simp add: ddiv_def dsub_def exact_def spec_amplitude_def)

lemma foldl_add_sum_list: "foldl (\<lambda>s k. s + f k) a xs = a + sum_list (map f xs)" for a :: real
  by (induction xs arbitrary: a) simp_all

lemma acc_sum_exact:
  "acc_sum exact buf j c 0 0 =
   (\<Sum>k<SDR_SAMPLE_RATIO. spec_amplitude (unat (buf ! (j * SDR_SAMPLE_RATIO * 2 + k * 2 + c))))"
proof -
  have "acc_sum exact buf j c 0 0 =
        foldl (\<lambda>s k. s + spec_amplitude (unat (buf ! (j * SDR_SAMPLE_RATIO * 2 + k * 2 + c)))) 0
          [0..<SDR_SAMPLE_RATIO]"
    by (simp add: acc_sum_def amplitude_exact) (simp add: dadd_def exact_def)
  also have "\<dots> = sum_list (map (\<lambda>k. spec_amplitude (unat (buf ! (j * SDR_SAMPLE_RATIO * 2 + k * 2 + c))))
                      [0..<SDR_SAMPLE_RATIO])"
    by (simp add: foldl_add_sum_list)
  also have "\<dots> = (\<Sum>k<SDR_SAMPLE_RATIO. spec_amplitude (unat (buf ! (j * SDR_SAMPLE_RATIO * 2 + k * 2 + c))))"
    by (simp add: interv_sum_list_conv_sum_set_nat atLeast0LessThan)
  finally show ?thesis .
qed

lemma dec_I_exact: "dec_I exact buf j = spec_decimated_I buf j"
  using acc_sum_exact [of buf j 0]
  by (simp add: dec_I_def spec_decimated_I_def) (simp add: ddiv_def exact_def)

lemma dec_Q_exact: "dec_Q exact buf j = spec_decimated_Q buf j"
  using acc_sum_exact [of buf j 1]
  by (simp add: dec_Q_def spec_decimated_Q_def) (simp add: ddiv_def exact_def)


section \<open>Sizes and indices\<close>

lemma length_zeros: "length zeros = SDR_BUFFER_LENGTH"
  by (simp add: zeros_def)

lemma N_pos: "0 < AUDIO_BUFFER_LENGTH"
  by (simp add: AUDIO_BUFFER_LENGTH_def)

lemma buffer_sizes:
  "SDR_BUFFER_LENGTH = 163840" "AUDIO_BUFFER_LENGTH * AUDIO_CHANNELS = 32768"
  by (simp_all add: SDR_BUFFER_LENGTH_def AUDIO_BUFFER_LENGTH_def SDR_SAMPLE_RATIO_def
      AUDIO_CHANNELS_def)

lemma read_index_bound:
  assumes "j < AUDIO_BUFFER_LENGTH" "k < SDR_SAMPLE_RATIO"
  shows "(j * SDR_SAMPLE_RATIO * 2) + (k * 2) + 1 < SDR_BUFFER_LENGTH"
proof -
  have "j * SDR_SAMPLE_RATIO * 2 + SDR_SAMPLE_RATIO * 2 \<le> SDR_BUFFER_LENGTH"
    using frame_in_range [of j zeros] assms(1) by (simp add: length_zeros)
  moreover have "k * 2 + 1 < SDR_SAMPLE_RATIO * 2"
    using assms(2) by simp
  ultimately show ?thesis by simp
qed


section \<open>What a call leaves in a slot\<close>

lemma after_call_fields:
  "audio_channel (after_call E buf s) = audio_channel s"
  "do_exit (after_call E buf s) = do_exit s"
  "g_audio_buffer (after_call E buf s) = result_buffer E buf (audio_channel s) (g_audio_buffer s)"
  "pcm_writes (after_call E buf s) =
     pcm_writes s @ [result_buffer E buf (audio_channel s) (g_audio_buffer s)]"
  "err_out (after_call E buf s) = err_out s @ meter (c_trunc (dmul E (peak E buf) 30))"
  by (simp_all add: after_call_def)

lemma stored_after_call:
  assumes "SDR_BUFFER_LENGTH \<le> length buf"
    and "length (g_audio_buffer s) = AUDIO_BUFFER_LENGTH * AUDIO_CHANNELS"
    and "do_exit s = 0" and "n < AUDIO_BUFFER_LENGTH * AUDIO_CHANNELS"
  shows "stored_sample (sdr_callback E buf len s) n =
         Some (routed E buf (audio_channel s) 0 (g_audio_buffer s) n)"
  using assms(2,4)
  by (simp add: sdr_callback_closed [OF assms(1-3)] stored_sample_def after_call_def
      length_result_buffer nth_result_buffer)

lemma stored_left:
  assumes "SDR_BUFFER_LENGTH \<le> length buf"
    and "length (g_audio_buffer s) = AUDIO_BUFFER_LENGTH * AUDIO_CHANNELS"
    and "do_exit s = 0" and "j < AUDIO_BUFFER_LENGTH"
  shows "stored_sample (sdr_callback E buf len s) (j * 2) =
         Some (if audio_channel s = 0 \<or> audio_channel s = 1 then to_float E (dec_Q E buf j)
               else g_audio_buffer s ! (j * 2))"
  using slots_in_range [OF assms(4)]
  by (simp add: stored_after_call [OF assms(1-3)] routed_def selected_def)

lemma stored_right:
  assumes "SDR_BUFFER_LENGTH \<le> length buf"
    and "length (g_audio_buffer s) = AUDIO_BUFFER_LENGTH * AUDIO_CHANNELS"
    and "do_exit s = 0" and "j < AUDIO_BUFFER_LENGTH"
  shows "stored_sample (sdr_callback E buf len s) (j * 2 + 1) =
         Some (if audio_channel s = 0 \<or> audio_channel s = 2 then to_float E (dec_Q E buf j)
               else g_audio_buffer s ! (j * 2 + 1))"
  using slots_in_range [OF assms(4)]
  by (simp add: stored_after_call [OF assms(1-3)] routed_def selected_def)

lemma peak_level_closed:
  assumes "SDR_BUFFER_LENGTH \<le> length buf"
    and "length (g_audio_buffer s) = AUDIO_BUFFER_LENGTH * AUDIO_CHANNELS"
  shows "peak_level E buf s = Some (peak E buf)"
  using assms(2) by (simp add: peak_level_def outer_loop_closed [OF assms(1)] peak_def)


section \<open>Only the first \<open>SDR_BUFFER_LENGTH\<close> bytes matter\<close>

lemma acc_sum_take:
  assumes "j < AUDIO_BUFFER_LENGTH" "c < 2"
  shows "acc_sum E (take SDR_BUFFER_LENGTH buf) j c k0 s = acc_sum E buf j c k0 s"
  unfolding acc_sum_def
proof (rule foldl_cong [OF refl refl])
  fix a k
  assume "k \<in> set [k0..<SDR_SAMPLE_RATIO]"
  then have "k < SDR_SAMPLE_RATIO" by simp
  from read_index_bound [OF assms(1) this] assms(2)
  have "j * SDR_SAMPLE_RATIO * 2 + k * 2 + c < SDR_BUFFER_LENGTH" by simp
  then show "dadd E a (amplitude E (take SDR_BUFFER_LENGTH buf ! (j * SDR_SAMPLE_RATIO * 2 + k * 2 + c))) =
             dadd E a (amplitude E (buf ! (j * SDR_SAMPLE_RATIO * 2 + k * 2 + c)))"
    by simp
qed

lemma dec_take:
  assumes "j < AUDIO_BUFFER_LENGTH"
  shows "dec_I E (take SDR_BUFFER_LENGTH buf) j = dec_I E buf j"
    and "dec_Q E (take SDR_BUFFER_LENGTH buf) j = dec_Q E buf j"
    and "env_A E (take SDR_BUFFER_LENGTH buf) j = env_A E buf j"
  using assms by (simp_all add: dec_I_def dec_Q_def env_A_def acc_sum_take)

lemma result_buffer_take:
  assumes "length out = AUDIO_BUFFER_LENGTH * AUDIO_CHANNELS"
  shows "result_buffer E (take SDR_BUFFER_LENGTH buf) ch out = result_buffer E buf ch out"
proof (rule nth_equalityI)
  show "length (result_buffer E (take SDR_BUFFER_LENGTH buf) ch out) =
        length (result_buffer E buf ch out)"
    by (simp add: length_result_buffer)
next
  fix n
  assume "n < length (result_buffer E (take SDR_BUFFER_LENGTH buf) ch out)"
  then have n: "n < length out" by (simp add: length_result_buffer)
  then have "n div 2 < AUDIO_BUFFER_LENGTH"
    using assms by (simp add: AUDIO_CHANNELS_def)
  then show "result_buffer E (take SDR_BUFFER_LENGTH buf) ch out ! n = result_buffer E buf ch out ! n"
    using n by (simp add: nth_result_buffer routed_def dec_take)
qed

lemma peak_take: "peak E (take SDR_BUFFER_LENGTH buf) = peak E buf"
proof -
  have "env_A E (take SDR_BUFFER_LENGTH buf) ` {0..<AUDIO_BUFFER_LENGTH} =
        env_A E buf ` {0..<AUDIO_BUFFER_LENGTH}"
    by (rule image_cong) (simp_all add: dec_take)
  then show ?thesis by (simp add: peak_def)
qed

lemma after_call_take:
  "length (g_audio_buffer s) = AUDIO_BUFFER_LENGTH * AUDIO_CHANNELS \<Longrightarrow>
   after_call E (take SDR_BUFFER_LENGTH buf) s = after_call E buf s"
  by (simp add: after_call_def result_buffer_take peak_take)


section \<open>A run on the buffer of zero bytes\<close>

lemma nth_zeros:
  assumes "j < AUDIO_BUFFER_LENGTH" "k < SDR_SAMPLE_RATIO" "c < 2"
  shows "zeros ! (j * SDR_SAMPLE_RATIO * 2 + k * 2 + c) = 0"
proof -
  have "j * SDR_SAMPLE_RATIO * 2 + SDR_SAMPLE_RATIO * 2 \<le> SDR_BUFFER_LENGTH"
    using frame_in_range [of j zeros] assms(1) by (simp add: length_zeros)
  moreover have "k * 2 + c < SDR_SAMPLE_RATIO * 2"
    using assms(2,3) by simp
  ultimately have "j * SDR_SAMPLE_RATIO * 2 + k * 2 + c < SDR_BUFFER_LENGTH"
    by simp
  then show ?thesis by (simp add: zeros_def)
qed

lemma spec_decimated_I_zeros:
  "j < AUDIO_BUFFER_LENGTH \<Longrightarrow> spec_decimated_I zeros j = - 1"
  using nth_zeros [of j _ 0]
  by (simp add: spec_decimated_I_def spec_amplitude_def) (simp add: SDR_SAMPLE_RATIO_def)

lemma spec_decimated_Q_zeros:
  "j < AUDIO_BUFFER_LENGTH \<Longrightarrow> spec_decimated_Q zeros j = - 1"
  using nth_zeros [of j _ 1]
  by (simp add: spec_decimated_Q_def spec_amplitude_def) (simp add: SDR_SAMPLE_RATIO_def)

lemma env_A_zeros: "j < AUDIO_BUFFER_LENGTH \<Longrightarrow> env_A exact zeros j = sqrt 2"
  by (simp add: env_A_def dec_I_exact dec_Q_exact spec_decimated_I_zeros spec_decimated_Q_zeros
      envelope_def dsqrt_def dadd_def dmul_def exact_sel)

lemma peak_zeros: "peak exact zeros = sqrt 2"
proof -
  have "env_A exact zeros ` {0..<AUDIO_BUFFER_LENGTH} = {sqrt 2}"
    using N_pos by (auto simp: env_A_zeros)
  then show ?thesis by (simp add: peak_def)
qed

lemma meter_width_zeros: "c_trunc (dmul exact (sqrt 2) 30) = 42"
proof -
  have "(7 / 5) ^ 2 \<le> (2::real)" by (simp add: power2_eq_square)
  then have lo: "7 / 5 \<le> sqrt 2" by (rule real_le_rsqrt)
  have "(2::real) < (43 / 30) ^ 2" by (simp add: power2_eq_square)
  then have hi: "sqrt 2 < 43 / 30" by (intro real_less_lsqrt) simp_all
  have "\<lfloor>sqrt 2 * 30\<rfloor> = 42"
    using lo hi by (intro floor_unique) simp_all
  moreover have "0 \<le> sqrt 2 * 30" by simp
  ultimately show ?thesis by (simp add: c_trunc_def dmul_def exact_sel)
qed

lemma result_buffer_zeros:
  "result_buffer exact zeros 0 (replicate (AUDIO_BUFFER_LENGTH * AUDIO_CHANNELS) 0) =
   replicate (AUDIO_BUFFER_LENGTH * AUDIO_CHANNELS) (- 1)"
proof (rule nth_equalityI)
  show "length (result_buffer exact zeros 0 (replicate (AUDIO_BUFFER_LENGTH * AUDIO_CHANNELS) 0)) =
        length (replicate (AUDIO_BUFFER_LENGTH * AUDIO_CHANNELS) (- 1 :: real))"
    by (simp add: length_result_buffer)
next
  fix n
  assume "n < length (result_buffer exact zeros 0 (replicate (AUDIO_BUFFER_LENGTH * AUDIO_CHANNELS) 0))"
  then have n: "n < AUDIO_BUFFER_LENGTH * AUDIO_CHANNELS"
    by (simp add: length_result_buffer)
  then have "n div 2 < AUDIO_BUFFER_LENGTH"
    by (simp add: AUDIO_CHANNELS_def)
  then have "dec_Q exact zeros (n div 2) = - 1"
    by (simp add: dec_Q_exact spec_decimated_Q_zeros)
  then show "result_buffer exact zeros 0 (replicate (AUDIO_BUFFER_LENGTH * AUDIO_CHANNELS) 0) ! n =
        replicate (AUDIO_BUFFER_LENGTH * AUDIO_CHANNELS) (- 1) ! n"
    using n by (simp add: nth_result_buffer routed_def selected_def exact_sel)
qed

lemma callback_on_zeros:
  "sdr_callback exact zeros len initial_state =
   Some \<lparr>g_audio_buffer = replicate (AUDIO_BUFFER_LENGTH * AUDIO_CHANNELS) (- 1),
         audio_channel = 0, do_exit = 0,
         pcm_writes = [replicate (AUDIO_BUFFER_LENGTH * AUDIO_CHANNELS) (- 1)],
         err_out = meter 42, cancel_async = 0\<rparr>"
proof -
  have "sdr_callback exact zeros len initial_state = Some (after_call exact zeros initial_state)"
    by (rule sdr_callback_closed) (simp_all add: length_zeros initial_state_def)
  moreover have "after_call exact zeros initial_state =
     \<lparr>g_audio_buffer = replicate (AUDIO_BUFFER_LENGTH * AUDIO_CHANNELS) (- 1),
      audio_channel = 0, do_exit = 0,
      pcm_writes = [replicate (AUDIO_BUFFER_LENGTH * AUDIO_CHANNELS) (- 1)],
      err_out = meter 42, cancel_async = 0\<rparr>"
    by (simp add: after_call_def initial_state_def result_buffer_zeros peak_zeros meter_width_zeros)
  ultimately show ?thesis by simp
qed

lemma initial_ok:
  "SDR_BUFFER_LENGTH \<le> length zeros"
  "length (g_audio_buffer initial_state) = AUDIO_BUFFER_LENGTH * AUDIO_CHANNELS"
  "do_exit initial_state = 0"
  by (simp_all add: length_zeros initial_state_def)

lemma left_mode_ok:
  "length (g_audio_buffer left_mode) = AUDIO_BUFFER_LENGTH * AUDIO_CHANNELS"
  "do_exit left_mode = 0"
  by (simp_all add: left_mode_def initial_state_def)

lemma frame_Q_zeros: "j < AUDIO_BUFFER_LENGTH \<Longrightarrow> frame_Q exact zeros j = Some (- 1)"
  by (simp add: frame_Q_closed length_zeros dec_Q_exact spec_decimated_Q_zeros)

lemma frame_envelope_zeros:
  "j < AUDIO_BUFFER_LENGTH \<Longrightarrow> frame_envelope exact zeros j = Some (sqrt 2)"
  by (simp add: frame_envelope_closed length_zeros env_A_zeros)

lemma sqrt2_neq: "(- 1 :: real) \<noteq> sqrt 2"
  using real_sqrt_ge_zero [of 2] by linarith


section \<open>Rounding\<close>

lemma keeps_sign_exact: "keeps_sign exact"
  by (simp add: keeps_sign_def exact_sel)

lemma faithful_exact: "faithful exact"
  by (simp add: faithful_def exact_sel mono_def)

lemma env_A_nonneg:
  assumes "keeps_sign E"
  shows "0 \<le> env_A E buf j"
proof -
  have r: "0 \<le> to_double E x" if "0 \<le> x" for x
    using assms that by (simp add: keeps_sign_def)
  have "0 \<le> dadd E (dmul E (dec_I E buf j) (dec_I E buf j)) (dmul E (dec_Q E buf j) (dec_Q E buf j))"
    by (simp add: dadd_def dmul_def r)
  then show ?thesis
    by (simp add: env_A_def envelope_def dsqrt_def r)
qed

lemma peak_is_Max:
  assumes "keeps_sign E"
  shows "peak E buf = Max (env_A E buf ` {..<AUDIO_BUFFER_LENGTH})"
proof -
  let ?A = "env_A E buf ` {..<AUDIO_BUFFER_LENGTH}"
  have fin: "finite ?A" by simp
  have ne: "?A \<noteq> {}" using N_pos by auto
  have "env_A E buf 0 \<in> ?A" using N_pos by simp
  then have "env_A E buf 0 \<le> Max ?A" by (rule Max_ge [OF fin])
  then have "0 \<le> Max ?A" using env_A_nonneg [OF assms, of buf 0] by linarith
  then show ?thesis
    using fin ne by (simp add: peak_def atLeast0LessThan max_def)
qed

lemma rd_fix_nat:
  assumes "faithful E" "n \<le> 127"
  shows "to_double E (real n) = real n" "to_double E (- real n) = - real n"
proof -
  have f: "to_double E (real_of_int z / 2) = real_of_int z / 2" if "- 255 \<le> z" "z \<le> 255" for z
    using assms(1) that by (simp add: faithful_def)
  show "to_double E (real n) = real n"
    using f [of "2 * int n"] assms(2) by simp
  show "to_double E (- real n) = - real n"
    using f [of "- 2 * int n"] assms(2) by simp
qed

lemma rd_clamp:
  assumes "faithful E" "n \<le> 127" "\<bar>x\<bar> \<le> real n"
  shows "\<bar>to_double E x\<bar> \<le> real n"
proof -
  have m: "mono (to_double E)" using assms(1) by (simp add: faithful_def)
  have "to_double E x \<le> to_double E (real n)"
    using assms(3) by (intro monoD [OF m]) simp
  moreover have "to_double E (- real n) \<le> to_double E x"
    using assms(3) by (intro monoD [OF m]) simp
  ultimately show ?thesis
    using rd_fix_nat [OF assms(1,2)] by simp
qed

lemma unat_u8_le: "unat (b::u8) \<le> 255"
  using unsigned_less [of b, where 'a = nat] by simp

lemma byte_amplitude_range:
  assumes "faithful E" "v \<le> (255::nat)"
  shows "\<bar>ddiv E (dsub E (real v) 127.5) 127.5\<bar> \<le> 1"
proof -
  have f: "to_double E (real_of_int z / 2) = real_of_int z / 2" if "- 255 \<le> z" "z \<le> 255" for z
    using assms(1) that by (simp add: faithful_def)
  have eq: "real v - 127.5 = real_of_int (2 * int v - 255) / 2"
    by simp
  have "to_double E (real_of_int (2 * int v - 255) / 2) = real_of_int (2 * int v - 255) / 2"
    using assms(2) by (intro f) simp_all
  then have "dsub E (real v) 127.5 = real v - 127.5"
    unfolding dsub_def eq .
  moreover have "\<bar>(real v - 127.5) / 127.5\<bar> \<le> real 1"
    using assms(2) by (simp add: abs_le_iff)
  ultimately have "\<bar>to_double E (dsub E (real v) 127.5 / 127.5)\<bar> \<le> real 1"
    using rd_clamp [OF assms(1), of 1] by simp
  then show ?thesis
    by (simp add: ddiv_def)
qed

lemma amplitude_range:
  assumes "faithful E"
  shows "\<bar>amplitude E b\<bar> \<le> 1"
  unfolding amplitude_def and_FF
  using assms unat_u8_le by (rule byte_amplitude_range)

lemma acc_sum_range:
  assumes "faithful E"
  shows "k \<le> SDR_SAMPLE_RATIO \<Longrightarrow> \<bar>s\<bar> \<le> real k \<Longrightarrow>
         \<bar>acc_sum E buf j c k s\<bar> \<le> real SDR_SAMPLE_RATIO"
proof (induction "SDR_SAMPLE_RATIO - k" arbitrary: k s)
  case 0
  then have "k = SDR_SAMPLE_RATIO" by simp
  with 0 show ?case by (simp add: acc_sum_done)
next
  case (Suc d)
  then have lt: "k < SDR_SAMPLE_RATIO" by simp
  let ?a = "amplitude E (buf ! (j * SDR_SAMPLE_RATIO * 2 + k * 2 + c))"
  have "\<bar>s + ?a\<bar> \<le> real (Suc k)"
    using Suc.prems(2) amplitude_range [OF assms, of "buf ! (j * SDR_SAMPLE_RATIO * 2 + k * 2 + c)"]
    by simp
  moreover have "Suc k \<le> 127"
    using lt by (simp add: SDR_SAMPLE_RATIO_def)
  ultimately have "\<bar>dadd E s ?a\<bar> \<le> real (Suc k)"
    unfolding dadd_def by (intro rd_clamp [OF assms])
  moreover have "d = SDR_SAMPLE_RATIO - Suc k" "Suc k \<le> SDR_SAMPLE_RATIO"
    using Suc.hyps(2) lt by simp_all
  ultimately have "\<bar>acc_sum E buf j c (Suc k) (dadd E s ?a)\<bar> \<le> real SDR_SAMPLE_RATIO"
    by (intro Suc.hyps(1))
  then show ?case by (simp add: acc_sum_step [OF lt])
qed

lemma dec_Q_range:
  assumes "faithful E"
  shows "\<bar>dec_Q E buf j\<bar> \<le> 1"
proof -
  have "\<bar>acc_sum E buf j 1 0 0\<bar> \<le> real SDR_SAMPLE_RATIO"
    using acc_sum_range [OF assms, of 0 0 buf j 1] by simp
  then have "\<bar>acc_sum E buf j 1 0 0 / real SDR_SAMPLE_RATIO\<bar> \<le> real 1"
    by (simp add: SDR_SAMPLE_RATIO_def)
  then have "\<bar>to_double E (acc_sum E buf j 1 0 0 / real SDR_SAMPLE_RATIO)\<bar> \<le> real 1"
    by (intro rd_clamp [OF assms]) simp_all
  then show ?thesis by (simp add: dec_Q_def ddiv_def)
qed

lemma float_range:
  assumes "faithful E" "\<bar>x\<bar> \<le> 1"
  shows "- 1 \<le> to_float E x \<and> to_float E x \<le> 1"
proof -
  have m: "mono (to_float E)" and lo: "to_float E (- 1) = - 1" and hi: "to_float E 1 = 1"
    using assms(1) by (simp_all add: faithful_def)
  have "to_float E (- 1) \<le> to_float E x" "to_float E x \<le> to_float E 1"
    using assms(2) by (auto intro!: monoD [OF m])
  then show ?thesis by (simp add: lo hi)
qed

section \<open>Rounding to nearest\<close>

lemma int_between:
  fixes a b :: int
  assumes "real_of_int a - real_of_int b < 1" "- 1 < real_of_int a - real_of_int b"
  shows "a = b"
proof -
  have "real_of_int (a - b) < 1" "- 1 < real_of_int (a - b)"
    using assms by simp_all
  then have "a - b < 1" "- 1 < a - b" by linarith+
  then show ?thesis by simp
qed

lemma round_half_even_error: "\<bar>of_int (round_half_even m) - m\<bar> \<le> 1 / 2"
proof -
  have "of_int \<lfloor>m\<rfloor> \<le> m" "m < of_int \<lfloor>m\<rfloor> + 1" by linarith+
  then show ?thesis
    by (auto simp: round_half_even_def Let_def)
qed

lemma round_half_even_unique:
  assumes "\<bar>m - of_int n\<bar> < 1 / 2"
  shows "round_half_even m = n"
proof -
  define f where "f = \<lfloor>m\<rfloor>"
  have f: "of_int f \<le> m" "m < of_int f + 1"
    unfolding f_def by linarith+
  have n: "m - of_int n < 1 / 2" "- (1 / 2) < m - of_int n"
    using assms by (simp_all only: abs_less_iff) linarith+
  have "f = n" if "m - of_int f < 1 / 2"
    using that f n by (intro int_between) linarith+
  moreover have "f + 1 = n" if "1 / 2 < m - of_int f"
    using that f n by (intro int_between) (simp, linarith)+
  moreover have False if h: "m - of_int f = 1 / 2"
  proof -
    have "real_of_int (2 * (f - n) + 1) < 1" "- 1 < real_of_int (2 * (f - n) + 1)"
      using h n by simp_all
    then have "2 * (f - n) + 1 < 1" "- 1 < 2 * (f - n) + 1" by linarith+
    then show False by presburger
  qed
  ultimately show ?thesis
    unfolding round_half_even_def Let_def f_def [symmetric]
    by (cases "m - of_int f < 1 / 2"; cases "1 / 2 < m - of_int f") (auto simp: not_less)
qed

lemma round_to_error:
  "\<bar>round_to p emin x - x\<bar> \<le> \<bar>x\<bar> / 2 ^ p + 2 powr of_int emin / 2"
proof (cases "x = 0")
  case True
  then show ?thesis by (simp add: round_to_def)
next
  case False
  define L where "L = \<lfloor>log 2 \<bar>x\<bar>\<rfloor>"
  define e where "e = max (L - (int p - 1)) emin"
  define s :: real where "s = 2 powr of_int e"
  have spos: "0 < s" by (simp add: s_def)
  have "(2::real) powr of_int L \<le> 2 powr log 2 \<bar>x\<bar>"
    unfolding L_def by (intro powr_mono) simp_all
  then have low: "(2::real) powr of_int L \<le> \<bar>x\<bar>"
    using False by simp
  have "real_of_int (L - (int p - 1)) = real_of_int L + (1 - real p)"
    by simp
  then have "(2::real) powr of_int (L - (int p - 1)) = 2 powr of_int L * 2 powr (1 - real p)"
    by (simp only: powr_add)
  also have "(2::real) powr (1 - real p) = 2 / 2 ^ p"
    by (simp add: powr_diff powr_realpow)
  finally have n: "(2::real) powr of_int (L - (int p - 1)) / 2 = 2 powr of_int L / 2 ^ p"
    by simp
  have "(2::real) powr of_int L / 2 ^ p \<le> \<bar>x\<bar> / 2 ^ p"
    using low by (simp add: divide_right_mono)
  with n have n': "(2::real) powr of_int (L - (int p - 1)) / 2 \<le> \<bar>x\<bar> / 2 ^ p"
    by simp
  have half: "s / 2 \<le> \<bar>x\<bar> / 2 ^ p + 2 powr of_int emin / 2"
  proof (cases "emin \<le> L - (int p - 1)")
    case True
    then have "s = 2 powr of_int (L - (int p - 1))" by (simp add: s_def e_def max_def)
    moreover have "(0::real) \<le> 2 powr of_int emin / 2" by simp
    ultimately show ?thesis using n' by linarith
  next
    case False
    then have "s = 2 powr of_int emin" by (simp add: s_def e_def max_def)
    moreover have "0 \<le> \<bar>x\<bar> / 2 ^ p" by simp
    ultimately show ?thesis by linarith
  qed
  have "of_int (round_half_even (x / s)) * s - x = (of_int (round_half_even (x / s)) - x / s) * s"
    using spos by (simp add: left_diff_distrib)
  then have "\<bar>of_int (round_half_even (x / s)) * s - x\<bar> =
        \<bar>of_int (round_half_even (x / s)) - x / s\<bar> * s"
    using spos by (simp only: abs_mult abs_of_pos)
  also have "\<dots> \<le> 1 / 2 * s"
    using spos round_half_even_error [of "x / s"] by (intro mult_right_mono) simp_all
  finally have "\<bar>of_int (round_half_even (x / s)) * s - x\<bar> \<le> s / 2"
    by simp
  then have "\<bar>of_int (round_half_even (x / s)) * s - x\<bar> \<le> \<bar>x\<bar> / 2 ^ p + 2 powr of_int emin / 2"
    using half by (rule order_trans)
  then show ?thesis
    using False by (simp add: round_to_def Let_def L_def s_def e_def)
qed

lemma round_to_eval:
  assumes "2 ^ (p - 1) \<le> \<bar>x\<bar> * 2 ^ j" "\<bar>x\<bar> * 2 ^ j < 2 ^ p" "0 < p" "emin \<le> - int j"
    and "\<bar>x * 2 ^ j - of_int n\<bar> < 1 / 2"
  shows "round_to p emin x = of_int n / 2 ^ j"
proof -
  have "(0::real) < 2 ^ (p - 1)" by simp
  then have "0 < \<bar>x\<bar> * 2 ^ j" using assms(1) by linarith
  then have x0: "x \<noteq> 0" by auto
  have "\<lfloor>log 2 \<bar>x\<bar>\<rfloor> = int p - 1 - int j"
  proof (subst floor_log_eq_powr_iff)
    show "0 < \<bar>x\<bar>" using x0 by simp
    show "(1::real) < 2" by simp
    have a: "(2::real) powr real_of_int (int p - 1 - int j) = 2 ^ (p - 1) / 2 ^ j"
    proof -
      obtain p' where p': "p = Suc p'" using assms(3) by (cases p) auto
      have "real_of_int (int p - 1 - int j) = real p' - real j" by (simp add: p')
      then show ?thesis by (simp only: powr_diff powr_realpow) (simp add: p' powr_realpow)
    qed
    have b: "(2::real) powr real_of_int (int p - 1 - int j + 1) = 2 ^ p / 2 ^ j"
      by (simp add: powr_diff powr_realpow)
    show "2 powr real_of_int (int p - 1 - int j) \<le> \<bar>x\<bar> \<and>
          \<bar>x\<bar> < 2 powr real_of_int (int p - 1 - int j + 1)"
      unfolding a b using assms(1,2) by (simp add: field_simps)
  qed
  then have e: "max (\<lfloor>log 2 \<bar>x\<bar>\<rfloor> - (int p - 1)) emin = - int j"
    using assms(4) by simp
  have s: "(2::real) powr - real j = 1 / 2 ^ j"
    by (simp add: powr_minus_divide powr_realpow)
  have "round_half_even (x * 2 ^ j) = n"
    using assms(5) by (rule round_half_even_unique)
  then show ?thesis
    using x0 by (simp add: round_to_def Let_def e s)
qed

lemma rd53:
  assumes "2 ^ 52 \<le> \<bar>x\<bar> * 2 ^ j" "\<bar>x\<bar> * 2 ^ j < 2 ^ 53" "\<bar>x * 2 ^ j - of_int n\<bar> < 1 / 2"
    and "j \<le> 1074"
  shows "to_double ieee x = of_int n / 2 ^ j"
  using round_to_eval [of 53 x j "- 1074" n] assms by (simp add: ieee_def)

lemma rounding_error_ieee: "rounding_error ieee (1 / 2 ^ 53) (1 / 2 ^ 1075)"
proof -
  have "(2::real) powr of_int (- 1074) / 2 = 1 / 2 ^ 1075"
    by (simp add: powr_minus_divide)
  then show ?thesis
    using round_to_error [of 53 "- 1074"]
    by (simp add: rounding_error_def ieee_def del: power_numeral)
qed

lemma rounding_error_exact: "rounding_error exact 0 0"
  by (simp add: rounding_error_def exact_sel)

lemma rounding_error_nonneg:
  assumes "rounding_error E u h"
  shows "0 \<le> h"
proof -
  have "\<bar>0::real\<bar> \<le> 128 \<longrightarrow> \<bar>to_double E 0 - 0\<bar> \<le> u * \<bar>0\<bar> + h"
    using assms unfolding rounding_error_def by blast
  then show ?thesis by simp
qed

lemma ieee_small: "(0::real) \<le> 1 / 2 ^ 53" "(1 / 2 ^ 53 :: real) \<le> 1 / 100"
  "(1 / 2 ^ 1075 :: real) \<le> 1 / 100"
  by simp_all

section \<open>A frame of bytes 2 in double arithmetic\<close>

lemma amplitude_ieee_2: "amplitude ieee 2 = - 8865909854666623 / 2 ^ 53"
proof -
  have "dsub ieee 2 127.5 = - 251 / 2"
    using rd53 [of "- 251 / 2" 46 "- 8831277394296832"] by (simp add: dsub_def)
  moreover have "to_double ieee (- 251 / 255) = - 8865909854666623 / 2 ^ 53"
    using rd53 [of "- 251 / 255" 53 "- 8865909854666623"] by simp
  ultimately show ?thesis
    by (simp add: amplitude_def ddiv_def)
qed

lemma sum_ieee_2:
  fixes a :: real
  assumes "a = - 8865909854666623 / 2 ^ 53"
  shows "dadd ieee (dadd ieee (dadd ieee (dadd ieee (dadd ieee 0 a) a) a) a) a =
         - 5541193659166639 / 2 ^ 50"
proof -
  have s1: "dadd ieee 0 a = - 8865909854666623 / 2 ^ 53"
    using rd53 [of "- 8865909854666623 / 2 ^ 53" 53 "- 8865909854666623"]
    by (simp add: dadd_def assms)
  have s2: "dadd ieee (- 8865909854666623 / 2 ^ 53) a = - 8865909854666623 / 2 ^ 52"
    using rd53 [of "- 8865909854666623 / 2 ^ 52" 52 "- 8865909854666623"]
    by (simp add: dadd_def assms)
  have s3: "dadd ieee (- 8865909854666623 / 2 ^ 52) a = - 6649432390999967 / 2 ^ 51"
    using rd53 [of "- 8865909854666623 / 2 ^ 52 + - 8865909854666623 / 2 ^ 53" 51 "- 6649432390999967"]
    by (simp add: dadd_def assms)
  have s4: "dadd ieee (- 6649432390999967 / 2 ^ 51) a = - 8865909854666623 / 2 ^ 51"
    using rd53 [of "- 6649432390999967 / 2 ^ 51 + - 8865909854666623 / 2 ^ 53" 51 "- 8865909854666623"]
    by (simp add: dadd_def assms)
  have s5: "dadd ieee (- 8865909854666623 / 2 ^ 51) a = - 5541193659166639 / 2 ^ 50"
    using rd53 [of "- 8865909854666623 / 2 ^ 51 + - 8865909854666623 / 2 ^ 53" 50 "- 5541193659166639"]
    by (simp add: dadd_def assms)
  show ?thesis by (simp only: s1 s2 s3 s4 s5)
qed

lemma mean_ieee_2: "ddiv ieee (- 5541193659166639 / 2 ^ 50) (real SDR_SAMPLE_RATIO) =
    - 8865909854666622 / 2 ^ 53"
  using rd53 [of "- 5541193659166639 / 2 ^ 50 / 5" 53 "- 8865909854666622"]
  by (simp add: ddiv_def SDR_SAMPLE_RATIO_def)

lemma length_twos: "length twos = SDR_BUFFER_LENGTH"
  by (simp add: twos_def)

lemma nth_twos:
  assumes "k < SDR_SAMPLE_RATIO" "c < 2"
  shows "twos ! (0 * SDR_SAMPLE_RATIO * 2 + k * 2 + c) = 2"
proof -
  have "(0 * SDR_SAMPLE_RATIO * 2) + (k * 2) + 1 < SDR_BUFFER_LENGTH"
    using N_pos assms(1) by (rule read_index_bound)
  then have "0 * SDR_SAMPLE_RATIO * 2 + k * 2 + c < SDR_BUFFER_LENGTH"
    using assms(2) by simp
  then show ?thesis by (simp add: twos_def)
qed

lemma acc_sum_unrolled:
  "acc_sum E buf j c 0 s =
   dadd E (dadd E (dadd E (dadd E (dadd E s
     (amplitude E (buf ! (j * SDR_SAMPLE_RATIO * 2 + 0 * 2 + c))))
     (amplitude E (buf ! (j * SDR_SAMPLE_RATIO * 2 + 1 * 2 + c))))
     (amplitude E (buf ! (j * SDR_SAMPLE_RATIO * 2 + 2 * 2 + c))))
     (amplitude E (buf ! (j * SDR_SAMPLE_RATIO * 2 + 3 * 2 + c))))
     (amplitude E (buf ! (j * SDR_SAMPLE_RATIO * 2 + 4 * 2 + c)))"
proof -
  have "[0..<SDR_SAMPLE_RATIO] = [0, 1, 2, 3, 4]"
    by (simp add: SDR_SAMPLE_RATIO_def upt_rec)
  then show ?thesis by (simp add: acc_sum_def)
qed

lemma acc_sum_twos:
  assumes "c < 2"
  shows "acc_sum ieee twos 0 c 0 0 = - 5541193659166639 / 2 ^ 50"
proof -
  have k: "(0::nat) < SDR_SAMPLE_RATIO" "(1::nat) < SDR_SAMPLE_RATIO" "(2::nat) < SDR_SAMPLE_RATIO"
    "(3::nat) < SDR_SAMPLE_RATIO" "(4::nat) < SDR_SAMPLE_RATIO"
    by (simp_all add: SDR_SAMPLE_RATIO_def)
  show ?thesis
    unfolding acc_sum_unrolled
    by (simp only: nth_twos [OF k(1) assms] nth_twos [OF k(2) assms] nth_twos [OF k(3) assms]
        nth_twos [OF k(4) assms] nth_twos [OF k(5) assms] sum_ieee_2 [OF amplitude_ieee_2])
qed

lemma dec_ieee_twos:
  "dec_I ieee twos 0 = - 8865909854666622 / 2 ^ 53" "dec_Q ieee twos 0 = - 8865909854666622 / 2 ^ 53"
proof -
  have c: "(0::nat) < 2" "(1::nat) < 2" by simp_all
  show "dec_I ieee twos 0 = - 8865909854666622 / 2 ^ 53"
    unfolding dec_I_def acc_sum_twos [OF c(1)] by (rule mean_ieee_2)
  show "dec_Q ieee twos 0 = - 8865909854666622 / 2 ^ 53"
    unfolding dec_Q_def acc_sum_twos [OF c(2)] by (rule mean_ieee_2)
qed

lemma decimate_ieee_twos:
  "decimate ieee twos 0 = Some (- 8865909854666622 / 2 ^ 53, - 8865909854666622 / 2 ^ 53)"
proof -
  have "decimate ieee twos 0 = Some (dec_I ieee twos 0, dec_Q ieee twos 0)"
    using N_pos by (rule decimate_closed) (simp add: length_twos)
  then show ?thesis by (simp only: dec_ieee_twos)
qed

lemma sum_unrolled: "(\<Sum>k<SDR_SAMPLE_RATIO. f k) = f 0 + f 1 + f 2 + f 3 + f 4" for f :: "nat \<Rightarrow> real"
  by (simp add: SDR_SAMPLE_RATIO_def lessThan_Suc numeral_eq_Suc)

lemma nth_twos_small: "n < 10 \<Longrightarrow> twos ! n = 2"
  by (simp add: twos_def buffer_sizes)

lemma spec_decimated_twos:
  "spec_decimated_I twos 0 = - 251 / 255" "spec_decimated_Q twos 0 = - 251 / 255"
  by (simp_all add: spec_decimated_I_def spec_decimated_Q_def sum_unrolled spec_amplitude_def
      nth_twos_small SDR_SAMPLE_RATIO_def)

section \<open>Rounding error of the decimation\<close>

lemma round_err:
  assumes R: "rounding_error E u h" and U: "0 \<le> u" "u \<le> 1 / 100"
    and y: "\<bar>y - Y\<bar> \<le> c * u + d * h" and Y: "\<bar>Y\<bar> \<le> m" and c: "0 \<le> c" "0 \<le> d"
    and range: "m + c * u + d * h \<le> 128"
  shows "\<bar>to_double E y - Y\<bar> \<le> (c * (101 / 100) + m) * u + (d * (101 / 100) + 1) * h"
proof -
  have h0: "0 \<le> h" using R by (rule rounding_error_nonneg)
  have ay: "\<bar>y\<bar> \<le> m + (c * u + d * h)" using y Y by linarith
  then have "\<bar>y\<bar> \<le> 128" using range by linarith
  then have r: "\<bar>to_double E y - y\<bar> \<le> u * \<bar>y\<bar> + h"
    using R unfolding rounding_error_def by blast
  have "u * \<bar>y\<bar> \<le> u * (m + (c * u + d * h))"
    using ay U(1) by (rule mult_left_mono)
  then have a: "\<bar>to_double E y - y\<bar> \<le> m * u + (c * u) * u + (d * h) * u + h"
    using r by (simp add: algebra_simps)
  have "0 \<le> c * u" using c(1) U(1) by simp
  with U(2) have b: "(c * u) * u \<le> (c * u) * (1 / 100)"
    by (rule mult_left_mono)
  have "0 \<le> d * h" using c(2) h0 by simp
  with U(2) have b': "(d * h) * u \<le> (d * h) * (1 / 100)"
    by (rule mult_left_mono)
  have "(c * (101 / 100) + m) * u + (d * (101 / 100) + 1) * h =
        c * u + (c * u) * (1 / 100) + m * u + (d * h + (d * h) * (1 / 100) + h)"
    by (simp add: algebra_simps)
  then show ?thesis using a b b' y by linarith
qed

lemma byte_amplitude_err:
  assumes R: "rounding_error E u h" and U: "0 \<le> u" "u \<le> 1 / 100" and H: "h \<le> 1 / 100"
    and "v \<le> (255::nat)"
  shows "\<bar>ddiv E (dsub E (real v) 127.5) 127.5 - spec_amplitude v\<bar>
           \<le> (201 / 100) * u + (102 / 100) * h"
proof -
  have h0: "0 \<le> h" using R by (rule rounding_error_nonneg)
  have rv: "real v \<le> 255" "0 \<le> real v"
    using assms(5) by simp_all
  have "\<bar>real v - 127.5\<bar> \<le> 255 / 2"
    using rv by linarith
  then have "\<bar>to_double E (real v - 127.5) - (real v - 127.5)\<bar>
      \<le> (0 * (101 / 100) + 255 / 2) * u + (0 * (101 / 100) + 1) * h"
    using R U by (intro round_err) simp_all
  then have d: "\<bar>dsub E (real v) 127.5 - (real v - 127.5)\<bar> \<le> (255 / 2) * u + h"
    by (simp add: dsub_def)
  have "dsub E (real v) 127.5 / 127.5 - spec_amplitude v =
        (dsub E (real v) 127.5 - (real v - 127.5)) / (255 / 2)"
    by (simp add: spec_amplitude_def diff_divide_distrib)
  then have "\<bar>dsub E (real v) 127.5 / 127.5 - spec_amplitude v\<bar> =
        \<bar>dsub E (real v) 127.5 - (real v - 127.5)\<bar> / (255 / 2)"
    by (simp only: abs_divide)
  also have "\<dots> \<le> ((255 / 2) * u + h) / (255 / 2)"
    using d by (intro divide_right_mono) simp_all
  also have "\<dots> = 1 * u + (2 / 255) * h"
    by (simp add: add_divide_distrib)
  also have "\<dots> \<le> 1 * u + (1 / 100) * h"
    using h0 by simp
  finally have y: "\<bar>dsub E (real v) 127.5 / 127.5 - spec_amplitude v\<bar> \<le> 1 * u + (1 / 100) * h" .
  have "(real v - 127.5) / 127.5 \<le> 1" "- 1 \<le> (real v - 127.5) / 127.5"
    using rv by simp_all
  then have "\<bar>(real v - 127.5) / 127.5\<bar> \<le> 1"
    by linarith
  then have "\<bar>spec_amplitude v\<bar> \<le> 1"
    by (simp only: spec_amplitude_def)
  moreover have "1 + 1 * u + (1 / 100) * h \<le> 128"
    using U(2) H by simp
  ultimately have "\<bar>to_double E (dsub E (real v) 127.5 / 127.5) - spec_amplitude v\<bar>
      \<le> (1 * (101 / 100) + 1) * u + ((1 / 100) * (101 / 100) + 1) * h"
    using y R U by (intro round_err) simp_all
  then show ?thesis using h0 by (simp add: ddiv_def)
qed

lemma amplitude_err:
  assumes "rounding_error E u h" "0 \<le> u" "u \<le> 1 / 100" "h \<le> 1 / 100"
  shows "\<bar>amplitude E b - spec_amplitude (unat b)\<bar> \<le> (201 / 100) * u + (102 / 100) * h"
  unfolding amplitude_def and_FF
  using assms unat_u8_le by (rule byte_amplitude_err)

lemma spec_amplitude_nat_le:
  assumes "v \<le> (255::nat)"
  shows "\<bar>spec_amplitude v\<bar> \<le> 1"
proof -
  have rv: "real v \<le> 255" "0 \<le> real v"
    using assms by simp_all
  have "(real v - 127.5) / 127.5 \<le> 1" "- 1 \<le> (real v - 127.5) / 127.5"
    using rv by simp_all
  then have "\<bar>(real v - 127.5) / 127.5\<bar> \<le> 1"
    by linarith
  then show ?thesis by (simp only: spec_amplitude_def)
qed

lemma spec_amplitude_le: "\<bar>spec_amplitude (unat (b::u8))\<bar> \<le> 1"
  using unat_u8_le by (rule spec_amplitude_nat_le)

lemma add_err:
  assumes R: "rounding_error E u h" and U: "0 \<le> u" "u \<le> 1 / 100" and H: "h \<le> 1 / 100"
    and s: "\<bar>s - S\<bar> \<le> c * u + d * h" and c: "0 \<le> c" "c \<le> 20" "0 \<le> d" "d \<le> 20"
    and x: "\<bar>x - X\<bar> \<le> (201 / 100) * u + (102 / 100) * h" and m: "\<bar>S + X\<bar> \<le> m" "m \<le> 5"
  shows "\<bar>dadd E s x - (S + X)\<bar>
           \<le> ((c + 201 / 100) * (101 / 100) + m) * u + ((d + 102 / 100) * (101 / 100) + 1) * h"
proof -
  have h0: "0 \<le> h" using R by (rule rounding_error_nonneg)
  have "(s + x) - (S + X) = (s - S) + (x - X)" by simp
  then have "\<bar>(s + x) - (S + X)\<bar> \<le> \<bar>s - S\<bar> + \<bar>x - X\<bar>"
    by (simp only: abs_triangle_ineq)
  moreover have "(c + 201 / 100) * u + (d + 102 / 100) * h =
      (c * u + d * h) + ((201 / 100) * u + (102 / 100) * h)"
    by (simp add: algebra_simps)
  ultimately have e: "\<bar>(s + x) - (S + X)\<bar> \<le> (c + 201 / 100) * u + (d + 102 / 100) * h"
    using s x by linarith
  have "(c + 201 / 100) * u \<le> (c + 201 / 100) * (1 / 100)"
    using c(1) U(2) by (intro mult_left_mono) simp_all
  moreover have "(d + 102 / 100) * h \<le> (d + 102 / 100) * (1 / 100)"
    using c(3) H by (intro mult_left_mono) simp_all
  ultimately have "m + (c + 201 / 100) * u + (d + 102 / 100) * h \<le> 128"
    using c(2,4) m(2) by simp
  then show ?thesis
    unfolding dadd_def using R U e m(1) c(1,3) by (intro round_err) simp_all
qed

lemma mean5_err:
  assumes R: "rounding_error E u h" and U: "0 \<le> u" "u \<le> 1 / 100" and H: "h \<le> 1 / 100"
    and x: "\<bar>x0 - a0\<bar> \<le> (201 / 100) * u + (102 / 100) * h"
      "\<bar>x1 - a1\<bar> \<le> (201 / 100) * u + (102 / 100) * h"
      "\<bar>x2 - a2\<bar> \<le> (201 / 100) * u + (102 / 100) * h"
      "\<bar>x3 - a3\<bar> \<le> (201 / 100) * u + (102 / 100) * h"
      "\<bar>x4 - a4\<bar> \<le> (201 / 100) * u + (102 / 100) * h"
    and a: "\<bar>a0\<bar> \<le> 1" "\<bar>a1\<bar> \<le> 1" "\<bar>a2\<bar> \<le> 1" "\<bar>a3\<bar> \<le> 1" "\<bar>a4\<bar> \<le> 1"
  shows "\<bar>ddiv E (dadd E (dadd E (dadd E (dadd E (dadd E 0 x0) x1) x2) x3) x4) 5
          - (a0 + a1 + a2 + a3 + a4) / 5\<bar> \<le> 7 * u + 4 * h"
proof -
  have h0: "0 \<le> h" using R by (rule rounding_error_nonneg)
  define s1 where "s1 = dadd E 0 x0"
  define s2 where "s2 = dadd E s1 x1"
  define s3 where "s3 = dadd E s2 x2"
  define s4 where "s4 = dadd E s3 x3"
  define s5 where "s5 = dadd E s4 x4"
  have "\<bar>s1 - (0 + a0)\<bar> \<le> ((0 + 201 / 100) * (101 / 100) + 1) * u
      + ((0 + 102 / 100) * (101 / 100) + 1) * h"
    unfolding s1_def using R U H x(1) a(1) by (intro add_err) simp_all
  then have e1: "\<bar>s1 - a0\<bar> \<le> (31 / 10) * u + (21 / 10) * h"
    using U(1) h0 by simp
  have "\<bar>s2 - (a0 + a1)\<bar> \<le> ((31 / 10 + 201 / 100) * (101 / 100) + 2) * u
      + ((21 / 10 + 102 / 100) * (101 / 100) + 1) * h"
    unfolding s2_def using R U H e1 x(2) a(1,2) by (intro add_err) simp_all
  then have e2: "\<bar>s2 - (a0 + a1)\<bar> \<le> (72 / 10) * u + (42 / 10) * h"
    using U(1) h0 by simp
  have "\<bar>s3 - (a0 + a1 + a2)\<bar> \<le> ((72 / 10 + 201 / 100) * (101 / 100) + 3) * u
      + ((42 / 10 + 102 / 100) * (101 / 100) + 1) * h"
    unfolding s3_def using R U H e2 x(3) a(1,2,3) by (intro add_err) simp_all
  then have e3: "\<bar>s3 - (a0 + a1 + a2)\<bar> \<le> (124 / 10) * u + (63 / 10) * h"
    using U(1) h0 by simp
  have "\<bar>s4 - (a0 + a1 + a2 + a3)\<bar> \<le> ((124 / 10 + 201 / 100) * (101 / 100) + 4) * u
      + ((63 / 10 + 102 / 100) * (101 / 100) + 1) * h"
    unfolding s4_def using R U H e3 x(4) a(1,2,3,4) by (intro add_err) simp_all
  then have e4: "\<bar>s4 - (a0 + a1 + a2 + a3)\<bar> \<le> (186 / 10) * u + (84 / 10) * h"
    using U(1) h0 by simp
  have "\<bar>s5 - (a0 + a1 + a2 + a3 + a4)\<bar> \<le> ((186 / 10 + 201 / 100) * (101 / 100) + 5) * u
      + ((84 / 10 + 102 / 100) * (101 / 100) + 1) * h"
    unfolding s5_def using R U H e4 x(5) a by (intro add_err) simp_all
  then have e5: "\<bar>s5 - (a0 + a1 + a2 + a3 + a4)\<bar> \<le> (259 / 10) * u + (106 / 10) * h"
    using U(1) h0 by simp
  have "s5 / 5 - (a0 + a1 + a2 + a3 + a4) / 5 = (s5 - (a0 + a1 + a2 + a3 + a4)) / 5"
    by (simp add: diff_divide_distrib)
  then have "\<bar>s5 / 5 - (a0 + a1 + a2 + a3 + a4) / 5\<bar> = \<bar>s5 - (a0 + a1 + a2 + a3 + a4)\<bar> / 5"
    by (simp only: abs_divide abs_numeral)
  then have y: "\<bar>s5 / 5 - (a0 + a1 + a2 + a3 + a4) / 5\<bar> \<le> (259 / 50) * u + (106 / 50) * h"
    using e5 by simp
  have "\<bar>(a0 + a1 + a2 + a3 + a4) / 5\<bar> \<le> 1"
    using a by (simp add: abs_le_iff)
  moreover have "1 + (259 / 50) * u + (106 / 50) * h \<le> 128"
    using U(2) H by simp
  ultimately have "\<bar>to_double E (s5 / 5) - (a0 + a1 + a2 + a3 + a4) / 5\<bar>
      \<le> ((259 / 50) * (101 / 100) + 1) * u + ((106 / 50) * (101 / 100) + 1) * h"
    using y R U by (intro round_err) simp_all
  then have "\<bar>ddiv E s5 5 - (a0 + a1 + a2 + a3 + a4) / 5\<bar> \<le> 7 * u + 4 * h"
    using U(1) h0 by (simp add: ddiv_def)
  then show ?thesis
    by (simp only: s1_def s2_def s3_def s4_def s5_def)
qed

lemma dec_err:
  assumes "rounding_error E u h" "0 \<le> u" "u \<le> 1 / 100" "h \<le> 1 / 100"
  shows "\<bar>dec_I E buf j - spec_decimated_I buf j\<bar> \<le> 7 * u + 4 * h"
    and "\<bar>dec_Q E buf j - spec_decimated_Q buf j\<bar> \<le> 7 * u + 4 * h"
proof -
  have five: "real SDR_SAMPLE_RATIO = 5" by (simp add: SDR_SAMPLE_RATIO_def)
  have "spec_decimated_I buf j =
     (\<Sum>k<SDR_SAMPLE_RATIO. spec_amplitude (unat (buf ! (j * SDR_SAMPLE_RATIO * 2 + k * 2 + 0))))
       / real SDR_SAMPLE_RATIO"
    by (simp add: spec_decimated_I_def)
  then show "\<bar>dec_I E buf j - spec_decimated_I buf j\<bar> \<le> 7 * u + 4 * h"
    unfolding dec_I_def acc_sum_unrolled sum_unrolled five
    by (simp only:) (intro mean5_err assms amplitude_err spec_amplitude_le)
  show "\<bar>dec_Q E buf j - spec_decimated_Q buf j\<bar> \<le> 7 * u + 4 * h"
    unfolding dec_Q_def spec_decimated_Q_def acc_sum_unrolled sum_unrolled five
    by (intro mean5_err assms amplitude_err spec_amplitude_le)
qed

section \<open>The claims\<close>

subsection \<open>What is stored in the audio buffer\<close>

text \<open>
  C1, as the claim states it, fails. On a buffer of the expected length whose bytes
  are all 0, with the flag clear and routing mode both, slot 0 of the audio buffer
  holds \<open>-1\<close> after the call, while the envelope of frame 0 is \<open>sqrt 2\<close>: lines 98
  and 99 store \<open>q\<close>, not \<open>a\<close>.
\<close>

theorem C1_envelope_not_stored:
  "length zeros = SDR_BUFFER_LENGTH \<and> do_exit initial_state = 0 \<and>
   stored_sample (sdr_callback exact zeros 163840 initial_state) 0 = Some (- 1) \<and>
   frame_envelope exact zeros 0 = Some (sqrt 2) \<and>
   stored_sample (sdr_callback exact zeros 163840 initial_state) 0 \<noteq> frame_envelope exact zeros 0"
  using sqrt2_neq
  by (simp add: length_zeros initial_ok callback_on_zeros stored_sample_def frame_envelope_zeros
      N_pos AUDIO_CHANNELS_def)

text \<open>
  C1, amended. For every raw buffer of at least the expected length processed while
  the cancellation flag is clear, the value stored for output frame \<open>j\<close>, in each slot
  that the routing mode selects (slot \<open>2j\<close> for 0 and 1, slot \<open>2j+1\<close> for 0 and 2),
  is the decimated Q value of that frame, rounded to float.
\<close>

theorem C1_stored_value_is_decimated_Q:
  assumes "SDR_BUFFER_LENGTH \<le> length iqBuffer"
    and "length (g_audio_buffer s) = AUDIO_BUFFER_LENGTH * AUDIO_CHANNELS"
    and "do_exit s = 0" and "j < AUDIO_BUFFER_LENGTH"
  shows "\<exists>q. frame_Q E iqBuffer j = Some q \<and>
     (audio_channel s = 0 \<or> audio_channel s = 1 \<longrightarrow>
        stored_sample (sdr_callback E iqBuffer len s) (j * 2) = Some (to_float E q)) \<and>
     (audio_channel s = 0 \<or> audio_channel s = 2 \<longrightarrow>
        stored_sample (sdr_callback E iqBuffer len s) (j * 2 + 1) = Some (to_float E q))"
  using frame_Q_closed [OF assms(4,1)] stored_left [OF assms] stored_right [OF assms]
  by simp

theorem C1_stored_value_is_decimated_Q_witness:
  "SDR_BUFFER_LENGTH \<le> length zeros \<and>
   length (g_audio_buffer initial_state) = AUDIO_BUFFER_LENGTH * AUDIO_CHANNELS \<and>
   do_exit initial_state = 0 \<and> 0 < AUDIO_BUFFER_LENGTH \<and>
   frame_Q exact zeros 0 = Some (- 1) \<and>
   stored_sample (sdr_callback exact zeros 163840 initial_state) 0 = Some (- 1) \<and>
   stored_sample (sdr_callback exact zeros 163840 initial_state) 1 = Some (- 1)"
proof -
  have ch: "audio_channel initial_state = 0"
    by (simp add: initial_state_def)
  from C1_stored_value_is_decimated_Q [OF initial_ok N_pos, of exact 163840]
  obtain q where q: "frame_Q exact zeros 0 = Some q"
    and l: "stored_sample (sdr_callback exact zeros 163840 initial_state) 0 = Some (to_float exact q)"
    and r: "stored_sample (sdr_callback exact zeros 163840 initial_state) 1 = Some (to_float exact q)"
    using ch by auto
  from q have "q = - 1" by (simp add: frame_Q_zeros N_pos)
  with q l r show ?thesis by (simp add: initial_ok N_pos exact_sel)
qed

subsection \<open>Decimation\<close>

text \<open>
  C2, as the claim states it, fails in the arithmetic of the program. On a buffer of the
  expected length whose bytes are all 2, lines 87 to 94 in double arithmetic give
  \<open>-8865909854666622 / 2 ^ 53\<close> for I and for Q of frame 0, while the arithmetic
  mean of the amplitudes is \<open>-251 / 255\<close>.
\<close>

theorem C2_double_mean_is_not_the_exact_mean:
  "length twos = SDR_BUFFER_LENGTH \<and> 0 < AUDIO_BUFFER_LENGTH \<and>
   decimate ieee twos 0 = Some (- 8865909854666622 / 2 ^ 53, - 8865909854666622 / 2 ^ 53) \<and>
   spec_decimated_I twos 0 = - 251 / 255 \<and> spec_decimated_Q twos 0 = - 251 / 255 \<and>
   decimate ieee twos 0 \<noteq> Some (spec_decimated_I twos 0, spec_decimated_Q twos 0)"
  by (simp add: length_twos N_pos decimate_ieee_twos spec_decimated_twos)

text \<open>
  C2, amended. For every raw buffer of the expected length and every output frame
  \<open>j\<close> below \<open>AUDIO_BUFFER_LENGTH\<close>, the decimated I value is, up to rounding, the
  arithmetic mean over \<open>k\<close> below the decimation ratio of
  \<open>(raw[j * ratio * 2 + k * 2] - 127.5) / 127.5\<close>, and the decimated Q value the same
  mean over the bytes one further: when rounding to double has the error bounds \<open>u\<close>
  and \<open>h\<close> (both at most one hundredth), each value differs from its mean by at most
  \<open>7 * u + 4 * h\<close>. In exact arithmetic both bounds are 0 and the values are equal.
\<close>

theorem C2_decimation_is_mean_up_to_rounding:
  assumes "rounding_error E u h" and "0 \<le> u" and "u \<le> 1 / 100" and "h \<le> 1 / 100"
    and "length iqBuffer = SDR_BUFFER_LENGTH" and "j < AUDIO_BUFFER_LENGTH"
  shows "\<exists>i q. decimate E iqBuffer j = Some (i, q) \<and>
     \<bar>i - spec_decimated_I iqBuffer j\<bar> \<le> 7 * u + 4 * h \<and>
     \<bar>q - spec_decimated_Q iqBuffer j\<bar> \<le> 7 * u + 4 * h"
  using assms(5,6) dec_err [OF assms(1-4)]
  by (simp add: decimate_closed)

theorem C2_decimation_is_mean_up_to_rounding_witness:
  "rounding_error ieee (1 / 2 ^ 53) (1 / 2 ^ 1075) \<and>
   (0::real) \<le> 1 / 2 ^ 53 \<and> (1 / 2 ^ 53 :: real) \<le> 1 / 100 \<and> (1 / 2 ^ 1075 :: real) \<le> 1 / 100 \<and>
   length twos = SDR_BUFFER_LENGTH \<and> 0 < AUDIO_BUFFER_LENGTH \<and>
   decimate ieee twos 0 = Some (- 8865909854666622 / 2 ^ 53, - 8865909854666622 / 2 ^ 53) \<and>
   \<bar>- 8865909854666622 / 2 ^ 53 - spec_decimated_I twos 0\<bar> \<le> 7 * (1 / 2 ^ 53) + 4 * (1 / 2 ^ 1075) \<and>
   \<bar>- 8865909854666622 / 2 ^ 53 - spec_decimated_Q twos 0\<bar> \<le> 7 * (1 / 2 ^ 53) + 4 * (1 / 2 ^ 1075)"
proof -
  from C2_decimation_is_mean_up_to_rounding [OF rounding_error_ieee ieee_small length_twos N_pos]
  obtain i q where d: "decimate ieee twos 0 = Some (i, q)"
    and bi: "\<bar>i - spec_decimated_I twos 0\<bar> \<le> 7 * (1 / 2 ^ 53) + 4 * (1 / 2 ^ 1075)"
    and bq: "\<bar>q - spec_decimated_Q twos 0\<bar> \<le> 7 * (1 / 2 ^ 53) + 4 * (1 / 2 ^ 1075)"
    by blast
  from d have "i = - 8865909854666622 / 2 ^ 53" "q = - 8865909854666622 / 2 ^ 53"
    unfolding decimate_ieee_twos by blast+
  with bi bq have "\<bar>- 8865909854666622 / 2 ^ 53 - spec_decimated_I twos 0\<bar>
      \<le> 7 * (1 / 2 ^ 53) + 4 * (1 / 2 ^ 1075)"
    and "\<bar>- 8865909854666622 / 2 ^ 53 - spec_decimated_Q twos 0\<bar>
      \<le> 7 * (1 / 2 ^ 53) + 4 * (1 / 2 ^ 1075)"
    by blast+
  then show ?thesis
    using rounding_error_ieee ieee_small length_twos N_pos decimate_ieee_twos by blast
qed

subsection \<open>Range of the stored samples\<close>

text \<open>
  C3, as the claim states it, fails. On the buffer of zero bytes, slot 1 of the audio
  buffer holds \<open>-1\<close> after the call, which is not in the range from 0 to 1.
\<close>

theorem C3_sample_can_be_negative:
  "length zeros = SDR_BUFFER_LENGTH \<and> do_exit initial_state = 0 \<and>
   stored_sample (sdr_callback exact zeros 163840 initial_state) 1 = Some (- 1) \<and>
   \<not> (0 \<le> (- 1 :: real))"
  by (simp add: length_zeros initial_ok callback_on_zeros stored_sample_def
      AUDIO_BUFFER_LENGTH_def AUDIO_CHANNELS_def)

text \<open>
  C3, amended. For every raw buffer of at least the expected length, every value that
  a call stores in a selected slot of an output frame lies between \<open>-1\<close> and \<open>1\<close>.
  This holds for every rounding that is \<open>faithful\<close>.
\<close>

theorem C3_stored_values_between_minus_one_and_one:
  assumes "faithful E" and "SDR_BUFFER_LENGTH \<le> length iqBuffer"
    and "length (g_audio_buffer s) = AUDIO_BUFFER_LENGTH * AUDIO_CHANNELS"
    and "do_exit s = 0" and "j < AUDIO_BUFFER_LENGTH"
  shows "(audio_channel s = 0 \<or> audio_channel s = 1 \<longrightarrow>
           (\<exists>v. stored_sample (sdr_callback E iqBuffer len s) (j * 2) = Some v \<and> - 1 \<le> v \<and> v \<le> 1)) \<and>
         (audio_channel s = 0 \<or> audio_channel s = 2 \<longrightarrow>
           (\<exists>v. stored_sample (sdr_callback E iqBuffer len s) (j * 2 + 1) = Some v \<and> - 1 \<le> v \<and> v \<le> 1))"
  using float_range [OF assms(1) dec_Q_range [OF assms(1)], of iqBuffer j]
    stored_left [OF assms(2-5), of E len] stored_right [OF assms(2-5), of E len]
  by simp

theorem C3_stored_values_between_minus_one_and_one_witness:
  "faithful exact \<and> SDR_BUFFER_LENGTH \<le> length zeros \<and>
   length (g_audio_buffer initial_state) = AUDIO_BUFFER_LENGTH * AUDIO_CHANNELS \<and>
   do_exit initial_state = 0 \<and> 0 < AUDIO_BUFFER_LENGTH \<and> audio_channel initial_state = 0 \<and>
   (\<exists>v. stored_sample (sdr_callback exact zeros 163840 initial_state) 0 = Some v \<and> - 1 \<le> v \<and> v \<le> 1) \<and>
   (\<exists>v. stored_sample (sdr_callback exact zeros 163840 initial_state) 1 = Some v \<and> - 1 \<le> v \<and> v \<le> 1)"
proof -
  have ch: "audio_channel initial_state = 0" by (simp add: initial_state_def)
  with C3_stored_values_between_minus_one_and_one [OF faithful_exact initial_ok N_pos, of 163840]
  show ?thesis
    by (simp add: faithful_exact initial_ok N_pos)
qed

subsection \<open>The length argument\<close>

text \<open>
  C4, as the claim states it, fails. Called with the length 0, which is not
  \<open>SDR_BUFFER_LENGTH\<close>, on the buffer of zero bytes, the callback overwrites the
  audio buffer and writes it to the audio sink.
\<close>

theorem C4_mismatched_length_is_processed:
  "unat (0 :: u32) \<noteq> SDR_BUFFER_LENGTH \<and> do_exit initial_state = 0 \<and>
   g_audio_buffer initial_state = replicate (AUDIO_BUFFER_LENGTH * AUDIO_CHANNELS) 0 \<and>
   pcm_writes initial_state = [] \<and>
   map_option g_audio_buffer (sdr_callback exact zeros 0 initial_state) =
     Some (replicate (AUDIO_BUFFER_LENGTH * AUDIO_CHANNELS) (- 1)) \<and>
   map_option pcm_writes (sdr_callback exact zeros 0 initial_state) =
     Some [replicate (AUDIO_BUFFER_LENGTH * AUDIO_CHANNELS) (- 1)]"
  by (simp add: callback_on_zeros) (simp add: initial_state_def SDR_BUFFER_LENGTH_def
      AUDIO_BUFFER_LENGTH_def SDR_SAMPLE_RATIO_def)

text \<open>
  C4, amended. The callback does not look at its length argument. Whatever that
  argument is, a call made while the flag is clear on a buffer of at least
  \<open>SDR_BUFFER_LENGTH\<close> bytes gives the same result as with any other length: it
  processes all frames and hands the whole audio buffer to the audio sink once.
\<close>

theorem C4_length_argument_is_ignored:
  assumes "SDR_BUFFER_LENGTH \<le> length iqBuffer"
    and "length (g_audio_buffer s) = AUDIO_BUFFER_LENGTH * AUDIO_CHANNELS"
    and "do_exit s = 0"
  shows "sdr_callback E iqBuffer len s = sdr_callback E iqBuffer len' s \<and>
    (\<exists>s'. sdr_callback E iqBuffer len s = Some s' \<and>
          pcm_writes s' = pcm_writes s @ [g_audio_buffer s'] \<and>
          length (g_audio_buffer s') = AUDIO_BUFFER_LENGTH * AUDIO_CHANNELS)"
  using assms(2)
  by (simp add: sdr_callback_closed [OF assms] after_call_def length_result_buffer)

theorem C4_length_argument_is_ignored_witness:
  "SDR_BUFFER_LENGTH \<le> length zeros \<and>
   length (g_audio_buffer initial_state) = AUDIO_BUFFER_LENGTH * AUDIO_CHANNELS \<and>
   do_exit initial_state = 0 \<and>
   sdr_callback exact zeros 0 initial_state = sdr_callback exact zeros 163840 initial_state \<and>
   (\<exists>s'. sdr_callback exact zeros 0 initial_state = Some s' \<and>
         pcm_writes s' = pcm_writes initial_state @ [g_audio_buffer s'] \<and>
         length (g_audio_buffer s') = AUDIO_BUFFER_LENGTH * AUDIO_CHANNELS)"
  using C4_length_argument_is_ignored [OF initial_ok, of exact 0 163840] initial_ok
  by blast

subsection \<open>Cancellation\<close>

text \<open>
  C5. A call of the callback that starts when the cancellation flag \<open>do_exit\<close> is
  set returns at once and changes nothing: the audio buffer, the text on stderr (where
  the peak level would be printed) and the list of writes to the audio sink are those of
  before, whatever the buffer and the length passed.
\<close>

theorem C5_cancelled_call_is_noop:
  "do_exit s \<noteq> 0 \<Longrightarrow> sdr_callback E iqBuffer len s = Some s"
  by (simp add: sdr_callback_def)

theorem C5_cancelled_call_is_noop_witness:
  "do_exit (sighandler 2 initial_state) \<noteq> 0 \<and>
   sdr_callback exact [] 0 (sighandler 2 initial_state) = Some (sighandler 2 initial_state)"
  using C5_cancelled_call_is_noop [of "sighandler 2 initial_state" exact "[]" 0]
  by (simp add: sighandler_def)

subsection \<open>Repeated calls\<close>

text \<open>
  C6. Two calls in a row with the same raw buffer and the same length, both with the
  flag clear (the routing mode is the same, since the callback never changes it): the
  audio buffer after the second call is the one after the first, and both calls hand
  the same frames to the audio sink and print the same level.
\<close>

theorem C6_repeated_call_same_output:
  assumes "SDR_BUFFER_LENGTH \<le> length iqBuffer"
    and "length (g_audio_buffer s) = AUDIO_BUFFER_LENGTH * AUDIO_CHANNELS"
    and "do_exit s = 0"
  shows "\<exists>s1 s2 frames level.
     sdr_callback E iqBuffer len s = Some s1 \<and> sdr_callback E iqBuffer len s1 = Some s2 \<and>
     g_audio_buffer s2 = g_audio_buffer s1 \<and>
     pcm_writes s1 = pcm_writes s @ [frames] \<and> pcm_writes s2 = pcm_writes s1 @ [frames] \<and>
     err_out s1 = err_out s @ level \<and> err_out s2 = err_out s1 @ level"
proof -
  let ?s1 = "after_call E iqBuffer s"
  let ?s2 = "after_call E iqBuffer ?s1"
  have c1: "sdr_callback E iqBuffer len s = Some ?s1"
    using assms by (rule sdr_callback_closed)
  have "length (g_audio_buffer ?s1) = AUDIO_BUFFER_LENGTH * AUDIO_CHANNELS"
    using assms(2) by (simp add: after_call_fields length_result_buffer)
  moreover have "do_exit ?s1 = 0"
    using assms(3) by (simp add: after_call_fields)
  ultimately have c2: "sdr_callback E iqBuffer len ?s1 = Some ?s2"
    using assms(1) by (intro sdr_callback_closed)
  have "g_audio_buffer ?s2 = g_audio_buffer ?s1"
    by (simp add: after_call_fields result_buffer_idem)
  moreover have "pcm_writes ?s2 = pcm_writes ?s1 @ [g_audio_buffer ?s1]"
    by (simp add: after_call_fields result_buffer_idem)
  moreover have "pcm_writes ?s1 = pcm_writes s @ [g_audio_buffer ?s1]"
    by (simp add: after_call_fields)
  moreover have "err_out ?s1 = err_out s @ meter (c_trunc (dmul E (peak E iqBuffer) 30))"
    and "err_out ?s2 = err_out ?s1 @ meter (c_trunc (dmul E (peak E iqBuffer) 30))"
    by (simp_all only: after_call_fields)
  ultimately show ?thesis using c1 c2 by blast
qed

theorem C6_repeated_call_same_output_witness:
  "SDR_BUFFER_LENGTH \<le> length zeros \<and>
   length (g_audio_buffer initial_state) = AUDIO_BUFFER_LENGTH * AUDIO_CHANNELS \<and>
   do_exit initial_state = 0 \<and>
   (\<exists>s1 s2 frames level.
     sdr_callback exact zeros 163840 initial_state = Some s1 \<and>
     sdr_callback exact zeros 163840 s1 = Some s2 \<and>
     g_audio_buffer s2 = g_audio_buffer s1 \<and>
     pcm_writes s1 = pcm_writes initial_state @ [frames] \<and>
     pcm_writes s2 = pcm_writes s1 @ [frames] \<and>
     err_out s1 = err_out initial_state @ level \<and> err_out s2 = err_out s1 @ level)"
  using C6_repeated_call_same_output [OF initial_ok, of exact 163840] initial_ok
  by blast

subsection \<open>Peak level\<close>

text \<open>
  C7. In a call with the flag clear, \<open>maxA\<close> at the end of the loop is the greatest
  of the envelopes that line 95 computed for the frames of this buffer, and the text
  printed is the meter of that value times 30. Nothing of the state before the call
  enters either: \<open>maxA\<close> starts from 0 in every call. The rounding is assumed to keep
  signs.
\<close>

theorem C7_peak_is_maximum_of_this_call:
  assumes "SDR_BUFFER_LENGTH \<le> length iqBuffer"
    and "length (g_audio_buffer s) = AUDIO_BUFFER_LENGTH * AUDIO_CHANNELS"
    and "do_exit s = 0" and "keeps_sign E"
  shows "\<exists>a. (\<forall>j<AUDIO_BUFFER_LENGTH. frame_envelope E iqBuffer j = Some (a j)) \<and>
     peak_level E iqBuffer s = Some (Max (a ` {..<AUDIO_BUFFER_LENGTH})) \<and>
     map_option err_out (sdr_callback E iqBuffer len s) =
       Some (err_out s @ meter (c_trunc (dmul E (Max (a ` {..<AUDIO_BUFFER_LENGTH})) 30)))"
proof (intro exI conjI allI impI)
  fix j assume "j < AUDIO_BUFFER_LENGTH"
  then show "frame_envelope E iqBuffer j = Some (env_A E iqBuffer j)"
    using assms(1) by (rule frame_envelope_closed)
next
  show "peak_level E iqBuffer s = Some (Max (env_A E iqBuffer ` {..<AUDIO_BUFFER_LENGTH}))"
    using peak_level_closed [OF assms(1,2)] peak_is_Max [OF assms(4)] by simp
next
  show "map_option err_out (sdr_callback E iqBuffer len s) =
        Some (err_out s @ meter (c_trunc (dmul E (Max (env_A E iqBuffer ` {..<AUDIO_BUFFER_LENGTH})) 30)))"
    using peak_is_Max [OF assms(4), of iqBuffer]
    by (simp add: sdr_callback_closed [OF assms(1-3)] after_call_fields)
qed

theorem C7_peak_is_maximum_of_this_call_witness:
  "SDR_BUFFER_LENGTH \<le> length zeros \<and>
   length (g_audio_buffer initial_state) = AUDIO_BUFFER_LENGTH * AUDIO_CHANNELS \<and>
   do_exit initial_state = 0 \<and> keeps_sign exact \<and>
   frame_envelope exact zeros 0 = Some (sqrt 2) \<and>
   peak_level exact zeros initial_state = Some (sqrt 2) \<and>
   map_option err_out (sdr_callback exact zeros 163840 initial_state) = Some (meter 42)"
proof -
  from C7_peak_is_maximum_of_this_call [OF initial_ok keeps_sign_exact, of 163840]
  obtain a where a: "\<forall>j<AUDIO_BUFFER_LENGTH. frame_envelope exact zeros j = Some (a j)"
    and p: "peak_level exact zeros initial_state = Some (Max (a ` {..<AUDIO_BUFFER_LENGTH}))"
    and e: "map_option err_out (sdr_callback exact zeros 163840 initial_state) =
              Some (err_out initial_state @
                meter (c_trunc (dmul exact (Max (a ` {..<AUDIO_BUFFER_LENGTH})) 30)))"
    by blast
  have "a j = sqrt 2" if "j < AUDIO_BUFFER_LENGTH" for j
    using a that by (simp add: frame_envelope_zeros)
  then have "a ` {..<AUDIO_BUFFER_LENGTH} = {sqrt 2}"
    using N_pos by auto
  then have "Max (a ` {..<AUDIO_BUFFER_LENGTH}) = sqrt 2" by simp
  with p e show ?thesis
    by (simp add: initial_ok keeps_sign_exact frame_envelope_zeros N_pos meter_width_zeros)
       (simp add: initial_state_def)
qed

subsection \<open>Channel routing\<close>

text \<open>
  C8. In a call with the flag clear, for every output frame \<open>j\<close>: in mode left
  (\<open>audio_channel = 1\<close>) slot \<open>2j\<close> receives the sample of the frame and slot
  \<open>2j+1\<close> keeps its value; in mode right (\<open>audio_channel = 2\<close>) slot \<open>2j+1\<close>
  receives the sample and slot \<open>2j\<close> keeps its value; in mode both
  (\<open>audio_channel = 0\<close>) the two slots receive the same value.
\<close>

theorem C8_channel_routing:
  assumes "SDR_BUFFER_LENGTH \<le> length iqBuffer"
    and "length (g_audio_buffer s) = AUDIO_BUFFER_LENGTH * AUDIO_CHANNELS"
    and "do_exit s = 0" and "j < AUDIO_BUFFER_LENGTH"
  shows "\<exists>q. frame_Q E iqBuffer j = Some q \<and>
     (audio_channel s = 1 \<longrightarrow>
        stored_sample (sdr_callback E iqBuffer len s) (j * 2) = Some (to_float E q) \<and>
        stored_sample (sdr_callback E iqBuffer len s) (j * 2 + 1) =
          Some (g_audio_buffer s ! (j * 2 + 1))) \<and>
     (audio_channel s = 2 \<longrightarrow>
        stored_sample (sdr_callback E iqBuffer len s) (j * 2) = Some (g_audio_buffer s ! (j * 2)) \<and>
        stored_sample (sdr_callback E iqBuffer len s) (j * 2 + 1) = Some (to_float E q)) \<and>
     (audio_channel s = 0 \<longrightarrow>
        stored_sample (sdr_callback E iqBuffer len s) (j * 2) = Some (to_float E q) \<and>
        stored_sample (sdr_callback E iqBuffer len s) (j * 2 + 1) = Some (to_float E q))"
  using frame_Q_closed [OF assms(4,1)] stored_left [OF assms] stored_right [OF assms]
  by simp

theorem C8_channel_routing_witness:
  "SDR_BUFFER_LENGTH \<le> length zeros \<and>
   length (g_audio_buffer left_mode) = AUDIO_BUFFER_LENGTH * AUDIO_CHANNELS \<and>
   do_exit left_mode = 0 \<and> 0 < AUDIO_BUFFER_LENGTH \<and> audio_channel left_mode = 1 \<and>
   stored_sample (sdr_callback exact zeros 163840 left_mode) 0 = Some (- 1) \<and>
   stored_sample (sdr_callback exact zeros 163840 left_mode) 1 = Some 0"
proof -
  have ch: "audio_channel left_mode = 1"
    by (simp add: left_mode_def)
  have old: "g_audio_buffer left_mode ! 1 = 0"
    by (simp add: left_mode_def initial_state_def AUDIO_BUFFER_LENGTH_def AUDIO_CHANNELS_def)
  from C8_channel_routing [OF initial_ok(1) left_mode_ok N_pos, of exact 163840]
  obtain q where q: "frame_Q exact zeros 0 = Some q"
    and l: "stored_sample (sdr_callback exact zeros 163840 left_mode) 0 = Some (to_float exact q)"
    and r: "stored_sample (sdr_callback exact zeros 163840 left_mode) 1 =
            Some (g_audio_buffer left_mode ! 1)"
    using ch by auto
  from q have "q = - 1" by (simp add: frame_Q_zeros N_pos)
  with l r old ch show ?thesis by (simp add: initial_ok left_mode_ok N_pos exact_sel)
qed

subsection \<open>Exit status\<close>

text \<open>
  C9, as the claim states it, fails: with the cancellation flag clear and a delivery
  loop that returned 0, \<^verbatim>\<open>main\<close> returns 0, although termination was not requested
  by the user.
\<close>

theorem C9_zero_status_without_cancel:
  "\<not> (snd (main_finish initial_state 0) = Some 0 \<longleftrightarrow>
        (do_exit initial_state \<noteq> 0 \<and> (0::int) \<ge> 0))"
  by (simp add: main_finish_def exit_code_def initial_state_def)

text \<open>
  C9, amended. The value \<^verbatim>\<open>main\<close> returns is the magnitude of the code \<open>r\<close> that
  the delivery loop returned, whatever the cancellation flag is (the flag only selects
  the message printed): it is 0 exactly when \<open>r\<close> is 0.
\<close>

theorem C9_exit_status_is_magnitude:
  "- (2 ^ 31) < r \<Longrightarrow>
   snd (main_finish s r) = Some \<bar>r\<bar> \<and> (snd (main_finish s r) = Some 0 \<longleftrightarrow> r = 0)"
  by (auto simp: main_finish_def exit_code_def)

theorem C9_exit_status_is_magnitude_witness:
  "- (2 ^ 31) < (- 5 :: int) \<and>
   snd (main_finish (sighandler 2 initial_state) (- 5)) = Some 5 \<and>
   (snd (main_finish (sighandler 2 initial_state) (- 5)) = Some 0 \<longleftrightarrow> (- 5 :: int) = 0)"
  using C9_exit_status_is_magnitude [of "- 5" "sighandler 2 initial_state"]
  by simp

subsection \<open>Array bounds\<close>

text \<open>
  C10. When the raw buffer holds at least \<open>SDR_BUFFER_LENGTH = 163840\<close> bytes (and
  the audio buffer has its declared size, 32768), every index the callback reads in the
  raw buffer is below 163840 and every index it writes in the audio buffer is below
  32768; the call never takes the out-of-range branch, and it gives the same result on
  the first 163840 bytes alone.
\<close>

theorem C10_accesses_in_bounds:
  assumes "SDR_BUFFER_LENGTH \<le> length iqBuffer"
    and "length (g_audio_buffer s) = AUDIO_BUFFER_LENGTH * AUDIO_CHANNELS"
  shows "SDR_BUFFER_LENGTH = 163840 \<and> AUDIO_BUFFER_LENGTH * AUDIO_CHANNELS = 32768 \<and>
    (\<forall>j<AUDIO_BUFFER_LENGTH. \<forall>k<SDR_SAMPLE_RATIO.
       (j * SDR_SAMPLE_RATIO * 2) + (k * 2) + 1 < SDR_BUFFER_LENGTH) \<and>
    (\<forall>j<AUDIO_BUFFER_LENGTH. (j * 2) + 1 < AUDIO_BUFFER_LENGTH * AUDIO_CHANNELS) \<and>
    sdr_callback E iqBuffer len s \<noteq> None \<and>
    sdr_callback E (take SDR_BUFFER_LENGTH iqBuffer) len s = sdr_callback E iqBuffer len s"
proof -
  have "SDR_BUFFER_LENGTH \<le> length (take SDR_BUFFER_LENGTH iqBuffer)"
    using assms(1) by simp
  then have "sdr_callback E (take SDR_BUFFER_LENGTH iqBuffer) len s =
        Some (if do_exit s \<noteq> 0 then s else after_call E (take SDR_BUFFER_LENGTH iqBuffer) s)"
    using assms(2) by (rule sdr_callback_total)
  moreover have "sdr_callback E iqBuffer len s =
        Some (if do_exit s \<noteq> 0 then s else after_call E iqBuffer s)"
    using assms by (rule sdr_callback_total)
  ultimately have "sdr_callback E iqBuffer len s \<noteq> None"
    and "sdr_callback E (take SDR_BUFFER_LENGTH iqBuffer) len s = sdr_callback E iqBuffer len s"
    using assms(2) by (simp_all add: after_call_take)
  then show ?thesis
    using read_index_bound slots_in_range by (simp add: buffer_sizes [symmetric])
qed

theorem C10_accesses_in_bounds_witness:
  "SDR_BUFFER_LENGTH \<le> length zeros \<and>
   length (g_audio_buffer initial_state) = AUDIO_BUFFER_LENGTH * AUDIO_CHANNELS \<and>
   (3 * SDR_SAMPLE_RATIO * 2) + (4 * 2) + 1 < SDR_BUFFER_LENGTH \<and>
   sdr_callback exact zeros 163840 initial_state \<noteq> None \<and>
   sdr_callback exact (take SDR_BUFFER_LENGTH zeros) 163840 initial_state =
     sdr_callback exact zeros 163840 initial_state"
proof -
  have "(3::nat) < AUDIO_BUFFER_LENGTH" "(4::nat) < SDR_SAMPLE_RATIO"
    by (simp_all add: AUDIO_BUFFER_LENGTH_def SDR_SAMPLE_RATIO_def)
  with C10_accesses_in_bounds [OF initial_ok(1,2), of exact 163840] initial_ok
  show ?thesis by blast
qed

end
